theory Spec2Isabelle
  imports Main
begin

section \<open>JavaScript values\<close>

text \<open>
  The values the component reads from event payloads and from JSON response bodies.
  Numbers are integers here (fractions, NaN and the infinities are not represented);
  an object is its list of own properties.
\<close>

datatype jsval =
    JUndefined
  | JNull
  | JBool bool
  | JNum int
  | JStr string
  | JArr "jsval list"
  | JObj "(string \<times> jsval) list"

text \<open>A thrown JavaScript error: its \<open>name\<close> and its \<open>message\<close>.\<close>

record jserror =
  err_name :: string
  err_message :: string

definition mk_error :: "string \<Rightarrow> string \<Rightarrow> jserror" where
  "mk_error n m = \<lparr>err_name = n, err_message = m\<rparr>"

text \<open>\<open>ToBoolean\<close>: undefined, null, false, 0 and the empty string are falsy.\<close>

fun truthy :: "jsval \<Rightarrow> bool" where
  "truthy JUndefined = False"
| "truthy JNull = False"
| "truthy (JBool b) = b"
| "truthy (JNum n) = (n \<noteq> 0)"
| "truthy (JStr s) = (s \<noteq> [])"
| "truthy (JArr xs) = True"
| "truthy (JObj ps) = True"

text \<open>
  Property read \<open>v.k\<close> for the keys the component reads (\<open>resource\<close>,
  \<open>available\<close>, \<open>message\<close>, \<open>error\<close>): it throws a TypeError on
  undefined and null, reads an object's own property, and is undefined on every other
  value.
\<close>

fun get_prop :: "jsval \<Rightarrow> string \<Rightarrow> jserror + jsval" where
  "get_prop JUndefined k = Inl (mk_error ''TypeError'' ''Cannot read properties of undefined'')"
| "get_prop JNull k = Inl (mk_error ''TypeError'' ''Cannot read properties of null'')"
| "get_prop (JObj ps) k = Inr (case map_of ps k of None \<Rightarrow> JUndefined | Some v \<Rightarrow> v)"
| "get_prop v k = Inr JUndefined"

text \<open>Optional chaining \<open>v?.k\<close>: undefined when \<open>v\<close> is undefined or null.\<close>

fun opt_chain :: "jsval \<Rightarrow> string \<Rightarrow> jsval" where
  "opt_chain JUndefined k = JUndefined"
| "opt_chain JNull k = JUndefined"
| "opt_chain (JObj ps) k = (case map_of ps k of None \<Rightarrow> JUndefined | Some v \<Rightarrow> v)"
| "opt_chain v k = JUndefined"

section \<open>The component and its visibility\<close>

text \<open>
  The child \<open>#notify-me-button\<close>: its \<open>style.display\<close> and the click listeners
  added to it (each the identity of one bound \<open>handleNotifyMeClick\<close>).
\<close>

record button =
  btn_display :: string
  btn_click :: "nat list"

text \<open>
  The custom element: its own \<open>style.display\<close>, the result of
  \<open>this.querySelector("#notify-me-button")\<close> (\<open>None\<close> when there is no such
  child) and the field \<open>boundVariantUpdateHandler\<close> (\<open>None\<close> while undefined,
  else the identity of the closure).
\<close>

record component =
  host_display :: string
  notify_button :: "button option"
  boundVariantUpdateHandler :: "nat option"

text \<open>
  \<open>handleVariantUpdate(event)\<close>, given \<open>event.detail\<close>. The calls of
  \<open>console.log\<close> change nothing and are left out.
\<close>

definition handleVariantUpdate :: "jsval \<Rightarrow> component \<Rightarrow> component" where
  "handleVariantUpdate detail c =
     (let variant = opt_chain detail ''resource'' in
      case notify_button c of
        None \<Rightarrow> c
      | Some nb \<Rightarrow>
          if truthy variant \<and> get_prop variant ''available'' = Inr (JBool False) then
            c\<lparr>host_display := ''block'', notify_button := Some (nb\<lparr>btn_display := ''flex''\<rparr>)\<rparr>
          else if truthy variant \<and> get_prop variant ''available'' = Inr (JBool True) then
            c\<lparr>host_display := ''none'', notify_button := Some (nb\<lparr>btn_display := ''none''\<rparr>)\<rparr>
          else
            c\<lparr>host_display := ''none'', notify_button := Some (nb\<lparr>btn_display := ''none''\<rparr>)\<rparr>)"

text \<open>
  The words of the specification: the payload's resource when it is present, and its
  availability flag when it carries one.
\<close>

definition resource_of :: "jsval \<Rightarrow> jsval option" where
  "resource_of detail = (case detail of JObj ps \<Rightarrow> map_of ps ''resource'' | _ \<Rightarrow> None)"

definition available_of :: "jsval \<Rightarrow> jsval option" where
  "available_of r = (case r of JObj ps \<Rightarrow> map_of ps ''available'' | _ \<Rightarrow> None)"

definition resource_unavailable :: "jsval \<Rightarrow> bool" where
  "resource_unavailable detail =
     (case resource_of detail of
        None \<Rightarrow> False
      | Some r \<Rightarrow> available_of r = Some (JBool False))"

definition control_visible :: "component \<Rightarrow> bool" where
  "control_visible c =
     (host_display c = ''block'' \<and> map_option btn_display (notify_button c) = Some ''flex'')"

definition control_hidden :: "component \<Rightarrow> bool" where
  "control_hidden c =
     (host_display c = ''none'' \<and> map_option btn_display (notify_button c) = Some ''none'')"

section \<open>The page: elements, selectors and queries\<close>

text \<open>
  An element of the page: an identity, the tag name, the class list, the attributes, and
  for an input its current \<open>value\<close> and its checkedness.
\<close>

record element =
  uid :: nat
  tag :: string
  class_list :: "string list"
  attrs :: "(string \<times> string) list"
  val :: string
  checked :: bool

datatype node = Node element "node list"

fun elem_of :: "node \<Rightarrow> element" where
  "elem_of (Node e cs) = e"

text \<open>The descendants of a node in tree order (the node itself is not one).\<close>

fun descendants :: "node \<Rightarrow> node list" where
  "descendants (Node e cs) = concat (map (\<lambda>c. c # descendants c) cs)"

text \<open>
  \<open>querySelectorAll\<close> gives the matching descendants in tree order,
  \<open>querySelector\<close> the first of them, and \<open>closest\<close> the nearest inclusive
  ancestor that matches. A selector is the predicate on elements it denotes.
\<close>

definition querySelectorAll :: "(element \<Rightarrow> bool) \<Rightarrow> node \<Rightarrow> node list" where
  "querySelectorAll sel n = filter (\<lambda>d. sel (elem_of d)) (descendants n)"

definition querySelector :: "(element \<Rightarrow> bool) \<Rightarrow> node \<Rightarrow> node option" where
  "querySelector sel n = (case querySelectorAll sel n of [] \<Rightarrow> None | d # ds \<Rightarrow> Some d)"

fun closest :: "(element \<Rightarrow> bool) \<Rightarrow> node list \<Rightarrow> node option" where
  "closest sel [] = None"
| "closest sel (a # as) = (if sel (elem_of a) then Some a else closest sel as)"

text \<open>The selectors of the source.\<close>

definition sel_product_form :: "element \<Rightarrow> bool" where
  \<comment> \<open>\<open>product-form-component\<close>\<close>
  "sel_product_form e = (tag e = ''product-form-component'')"

definition sel_section :: "element \<Rightarrow> bool" where
  \<comment> \<open>\<open>.shopify-section\<close>\<close>
  "sel_section e = (''shopify-section'' \<in> set (class_list e))"

definition sel_variant_input :: "element \<Rightarrow> bool" where
  \<comment> \<open>\<open>input[name="id"], input[ref="variantId"]\<close>\<close>
  "sel_variant_input e =
     (tag e = ''input'' \<and>
      (map_of (attrs e) ''name'' = Some ''id'' \<or> map_of (attrs e) ''ref'' = Some ''variantId''))"

definition sel_variant_picker :: "element \<Rightarrow> bool" where
  \<comment> \<open>\<open>variant-picker\<close>\<close>
  "sel_variant_picker e = (tag e = ''variant-picker'')"

definition sel_checked_variant :: "element \<Rightarrow> bool" where
  \<comment> \<open>\<open>input[data-variant-id]:checked\<close>\<close>
  "sel_checked_variant e =
     (tag e = ''input'' \<and> map_of (attrs e) ''data-variant-id'' \<noteq> None \<and> checked e)"

text \<open>
  What \<open>getVariantId\<close> reads: the inclusive ancestors of the component (the component
  first, the outermost ancestor last), the document's root element, and the pairs of
  \<open>window.location.search\<close> as \<open>URLSearchParams\<close> holds them.
\<close>

record page =
  this_chain :: "node list"
  doc_root :: node
  search :: "(string \<times> string) list"

text \<open>\<open>document.querySelector\<close>: the root element is a candidate too.\<close>

definition document_querySelector :: "(element \<Rightarrow> bool) \<Rightarrow> node \<Rightarrow> node option" where
  "document_querySelector sel root =
     (case filter (\<lambda>d. sel (elem_of d)) (root # descendants root) of
        [] \<Rightarrow> None
      | d # ds \<Rightarrow> Some d)"

text \<open>\<open>URLSearchParams.get\<close>: the first value of the key.\<close>

definition urlParams_get :: "(string \<times> string) list \<Rightarrow> string \<Rightarrow> string option" where
  "urlParams_get ps k = map_of ps k"

section \<open>Variant resolution\<close>

text \<open>The first block of \<open>getVariantId\<close>: the closest product form.\<close>

definition from_product_form :: "page \<Rightarrow> string option" where
  "from_product_form pg =
     (case closest sel_product_form (this_chain pg) of
        None \<Rightarrow> None
      | Some productForm \<Rightarrow>
          (case querySelector sel_variant_input productForm of
             None \<Rightarrow> None
           | Some variantInput \<Rightarrow>
               if val (elem_of variantInput) \<noteq> [] then Some (val (elem_of variantInput))
               else None))"

text \<open>The \<open>for\<close> loop of the second block: the first input with a value.\<close>

fun first_input_value :: "node list \<Rightarrow> string option" where
  "first_input_value [] = None"
| "first_input_value (input # inputs) =
     (if val (elem_of input) \<noteq> [] then Some (val (elem_of input))
      else first_input_value inputs)"

definition from_section :: "page \<Rightarrow> string option" where
  "from_section pg =
     (case closest sel_section (this_chain pg) of
        None \<Rightarrow> None
      | Some sect \<Rightarrow> first_input_value (querySelectorAll sel_variant_input sect))"

text \<open>The third block: the variant picker.\<close>

definition from_variant_picker :: "page \<Rightarrow> string option" where
  "from_variant_picker pg =
     (case document_querySelector sel_variant_picker (doc_root pg) of
        None \<Rightarrow> None
      | Some variantPicker \<Rightarrow>
          (case querySelector sel_checked_variant variantPicker of
             None \<Rightarrow> None
           | Some selectedVariant \<Rightarrow>
               (case map_of (attrs (elem_of selectedVariant)) ''data-variant-id'' of
                  None \<Rightarrow> None
                | Some variantId \<Rightarrow> if variantId \<noteq> [] then Some variantId else None)))"

text \<open>The fourth block: the URL.\<close>

definition from_url :: "page \<Rightarrow> string option" where
  "from_url pg =
     (case urlParams_get (search pg) ''variant'' of
        None \<Rightarrow> None
      | Some variantFromUrl \<Rightarrow> if variantFromUrl \<noteq> [] then Some variantFromUrl else None)"

text \<open>\<open>getVariantId\<close>: each block returns when it found a value; \<open>None\<close> is \<open>null\<close>.\<close>

definition getVariantId :: "page \<Rightarrow> string option" where
  "getVariantId pg =
     (case from_product_form pg of
        Some v \<Rightarrow> Some v
      | None \<Rightarrow>
          (case from_section pg of
             Some v \<Rightarrow> Some v
           | None \<Rightarrow>
               (case from_variant_picker pg of
                  Some v \<Rightarrow> Some v
                | None \<Rightarrow> from_url pg)))"

text \<open>
  The specification's reading: the values the four sources offer, in the order of the
  tiers, and the first of them that is not empty.
\<close>

definition tier1_values :: "page \<Rightarrow> string list" where
  "tier1_values pg =
     (case closest sel_product_form (this_chain pg) of
        None \<Rightarrow> []
      | Some f \<Rightarrow> map (\<lambda>d. val (elem_of d)) (take 1 (querySelectorAll sel_variant_input f)))"

definition tier2_values :: "page \<Rightarrow> string list" where
  "tier2_values pg =
     (case closest sel_section (this_chain pg) of
        None \<Rightarrow> []
      | Some s \<Rightarrow> map (\<lambda>d. val (elem_of d)) (querySelectorAll sel_variant_input s))"

definition tier3_values :: "page \<Rightarrow> string list" where
  "tier3_values pg =
     (case document_querySelector sel_variant_picker (doc_root pg) of
        None \<Rightarrow> []
      | Some p \<Rightarrow>
          concat (map (\<lambda>d. case map_of (attrs (elem_of d)) ''data-variant-id'' of
                              None \<Rightarrow> [] | Some v \<Rightarrow> [v])
                      (take 1 (querySelectorAll sel_checked_variant p))))"

definition tier4_values :: "page \<Rightarrow> string list" where
  "tier4_values pg = (case map_of (search pg) ''variant'' of None \<Rightarrow> [] | Some v \<Rightarrow> [v])"

definition resolve_variant :: "page \<Rightarrow> string option" where
  "resolve_variant pg =
     List.find (\<lambda>v. v \<noteq> [])
       (tier1_values pg @ tier2_values pg @ tier3_values pg @ tier4_values pg)"

section \<open>Event listeners of the variant events\<close>

text \<open>
  An event target is the document or an element (by its identity). A target's listener
  list holds pairs of an event type and a callback; a callback is the identity of a
  closure, and every evaluation of a function expression makes a new one.
\<close>

datatype target = Document | Element nat

record registry =
  listeners :: "target \<Rightarrow> (string \<times> nat) list"
  next_closure :: nat

text \<open>
  \<open>addEventListener\<close> appends the pair unless the list already holds it;
  \<open>removeEventListener\<close> removes it where it is held and does nothing otherwise.
\<close>

definition addEventListener :: "target \<Rightarrow> string \<Rightarrow> nat \<Rightarrow> registry \<Rightarrow> registry" where
  "addEventListener t ty cb r =
     (if (ty, cb) \<in> set (listeners r t) then r
      else r\<lparr>listeners := (listeners r)(t := listeners r t @ [(ty, cb)])\<rparr>)"

definition removeEventListener :: "target \<Rightarrow> string \<Rightarrow> nat \<Rightarrow> registry \<Rightarrow> registry" where
  "removeEventListener t ty cb r =
     r\<lparr>listeners := (listeners r)(t := removeAll (ty, cb) (listeners r t))\<rparr>"

text \<open>
  The names \<open>ThemeEvents.variantUpdate\<close> and \<open>ThemeEvents.variantSelected\<close> come
  from the theme's module \<open>@theme/events\<close>; they are parameters here.
\<close>

record theme_events =
  variantUpdate :: string
  variantSelected :: string

text \<open>\<open>this.closest(".shopify-section") || document\<close>.\<close>

definition listener_scope :: "node list \<Rightarrow> target" where
  "listener_scope chain =
     (case closest sel_section chain of
        None \<Rightarrow> Document
      | Some s \<Rightarrow> Element (uid (elem_of s)))"

text \<open>
  \<open>setupNotifyButton\<close>: \<open>handleNotifyMeClick.bind(this)\<close> is a new function at
  every call.
\<close>

definition setupNotifyButton :: "component \<times> registry \<Rightarrow> component \<times> registry" where
  "setupNotifyButton cr =
     (case cr of (c, r) \<Rightarrow>
        (case notify_button c of
           None \<Rightarrow> (c, r)
         | Some nb \<Rightarrow>
             (c\<lparr>notify_button := Some (nb\<lparr>btn_click := btn_click nb @ [next_closure r]\<rparr>)\<rparr>,
              r\<lparr>next_closure := Suc (next_closure r)\<rparr>)))"

definition setupVariantUpdateListener ::
  "theme_events \<Rightarrow> node list \<Rightarrow> component \<times> registry \<Rightarrow> component \<times> registry" where
  "setupVariantUpdateListener te chain cr =
     (case cr of (c, r) \<Rightarrow>
        (let sect = listener_scope chain;
             h = next_closure r;
             r1 = r\<lparr>next_closure := Suc h\<rparr>;
             r2 = addEventListener sect (variantUpdate te) h r1;
             r3 = addEventListener sect (variantSelected te) h r2
         in (c\<lparr>boundVariantUpdateHandler := Some h\<rparr>, r3)))"

text \<open>
  The two lifecycle callbacks. Each takes the inclusive ancestors the component has when
  the browser runs the callback. The base class's callbacks (\<open>super\<close>, of
  \<open>@theme/component\<close>) are taken to leave these fields and listeners alone.
\<close>

definition connectedCallback ::
  "theme_events \<Rightarrow> node list \<Rightarrow> component \<times> registry \<Rightarrow> component \<times> registry" where
  "connectedCallback te chain cr = setupVariantUpdateListener te chain (setupNotifyButton cr)"

definition disconnectedCallback ::
  "theme_events \<Rightarrow> node list \<Rightarrow> component \<times> registry \<Rightarrow> component \<times> registry" where
  "disconnectedCallback te chain cr =
     (case cr of (c, r) \<Rightarrow>
        (case boundVariantUpdateHandler c of
           None \<Rightarrow> (c, r)
         | Some h \<Rightarrow>
             (let sect = listener_scope chain;
                  r1 = removeEventListener sect (variantUpdate te) h r;
                  r2 = removeEventListener sect (variantSelected te) h r1
              in (c, r2))))"

section \<open>The modal\<close>

text \<open>
  One modal as \<open>showEmailModal\<close> inserts it: the state of the parts of its markup
  that the code reads or writes. The listener lists hold the instance of
  \<open>showEmailModal\<close> whose closure (\<open>closeModal\<close>, or the submit handler) was added.
\<close>

record modal_node =
  visible_class :: bool
  email_value :: string
  email_focused :: bool
  submit_disabled :: bool
  submit_label :: string
  message_text :: string
  message_class :: string
  message_display :: string
  close_click :: "nat list"
  cancel_click :: "nat list"
  backdrop_click :: "nat list"
  submit_listeners :: "nat list"

definition modalHTML :: modal_node where
  "modalHTML =
     \<lparr>visible_class = False, email_value = [], email_focused = False,
      submit_disabled = False, submit_label = ''Notify Me'',
      message_text = [], message_class = ''notify-me-form__message'',
      message_display = ''none'',
      close_click = [], cancel_click = [], backdrop_click = [], submit_listeners = []\<rparr>"

text \<open>What a timer or an animation frame runs when it is due.\<close>

datatype task =
    AddVisibleClass nat
  | RemoveNode nat
  | CloseModal nat
  | FocusEmail nat

text \<open>
  The document as the modal code sees it: a store of modal nodes by identity (a node
  stays in the store when it leaves the document, since closures keep it), the modals
  now in \<open>document.body\<close> in tree order, the document's \<open>keydown\<close> listeners (the
  \<open>handleKeydown\<close> of an instance), the modal node each instance of
  \<open>showEmailModal\<close> captured in \<open>modal\<close>, the pending animation frames and
  timers (with the time each is due), the clock in milliseconds, the counters that name
  new nodes and instances, and the requests sent so far (variant id and email).
\<close>

record world =
  nodes :: "nat \<Rightarrow> modal_node"
  body :: "nat list"
  keydown :: "nat list"
  captured :: "nat \<Rightarrow> nat"
  frames :: "task list"
  timers :: "(nat \<times> task) list"
  clock :: nat
  next_node :: nat
  next_instance :: nat
  requests :: "(string \<times> string) list"

definition update_node :: "nat \<Rightarrow> (modal_node \<Rightarrow> modal_node) \<Rightarrow> world \<Rightarrow> world" where
  "update_node m f w = w\<lparr>nodes := (nodes w)(m := f (nodes w m))\<rparr>"

definition add_listener :: "nat \<Rightarrow> nat list \<Rightarrow> nat list" where
  "add_listener k ls = (if k \<in> set ls then ls else ls @ [k])"

text \<open>
  The pending timers are kept in the order they will run: by the time each is due, and
  among timers due at the same time by the order they were set.
\<close>

fun insert_timer :: "nat \<times> task \<Rightarrow> (nat \<times> task) list \<Rightarrow> (nat \<times> task) list" where
  "insert_timer x [] = [x]"
| "insert_timer x (y # ys) =
     (if fst y \<le> fst x then y # insert_timer x ys else x # y # ys)"

definition setTimeout :: "task \<Rightarrow> nat \<Rightarrow> world \<Rightarrow> world" where
  "setTimeout t delay w = w\<lparr>timers := insert_timer (clock w + delay, t) (timers w)\<rparr>"

text \<open>
  \<open>closeModal\<close> of instance \<open>k\<close>: it removes that instance's \<open>handleKeydown\<close>
  from the document, removes the visibility class of the captured node and schedules
  the node's removal.
\<close>

definition closeModal :: "nat \<Rightarrow> world \<Rightarrow> world" where
  "closeModal k w =
     (let m = captured w k;
          w1 = w\<lparr>keydown := removeAll k (keydown w)\<rparr>;
          w2 = update_node m (\<lambda>n. n\<lparr>visible_class := False\<rparr>) w1
      in setTimeout (RemoveNode m) 300 w2)"

definition handleKeydown :: "nat \<Rightarrow> string \<Rightarrow> world \<Rightarrow> world" where
  "handleKeydown k key w = (if key = ''Escape'' then closeModal k w else w)"

text \<open>
  \<open>showEmailModal\<close>. The markup goes to the end of \<open>document.body\<close>;
  \<open>getElementById\<close> gives the first element of that id in tree order, so \<open>modal\<close>
  and \<open>form\<close> are the first modal in the body, which is the new one only when no
  other is there. The document is taken to hold no other element of these ids and a
  modal's markup to stay as it was inserted, so the parts looked up inside the modal are
  found and the guards for a missing part are never taken (the one for \<open>modal\<close>
  is the empty case below).
\<close>

definition showEmailModal :: "world \<Rightarrow> world" where
  "showEmailModal w =
     (let n = next_node w;
          w1 = w\<lparr>nodes := (nodes w)(n := modalHTML), body := body w @ [n],
                 next_node := Suc n\<rparr>
      in case body w1 of
           [] \<Rightarrow> w1
         | m # others \<Rightarrow>
             (let k = next_instance w1;
                  w2 = w1\<lparr>captured := (captured w1)(k := m), next_instance := Suc k\<rparr>;
                  w3 = w2\<lparr>frames := frames w2 @ [AddVisibleClass m]\<rparr>;
                  w4 = w3\<lparr>keydown := add_listener k (keydown w3)\<rparr>;
                  w5 = update_node m
                         (\<lambda>n. n\<lparr>close_click := add_listener k (close_click n),
                                 cancel_click := add_listener k (cancel_click n),
                                 backdrop_click := add_listener k (backdrop_click n),
                                 submit_listeners := add_listener k (submit_listeners n)\<rparr>) w4
              in setTimeout (FocusEmail m) 100 w5))"

text \<open>
  Running a due task. \<open>modal.remove()\<close> takes the node out of the body and does
  nothing to a node that is not there; \<open>focus()\<close> acts on an element of the
  document only.
\<close>

fun fire :: "task \<Rightarrow> world \<Rightarrow> world" where
  "fire (AddVisibleClass m) w = update_node m (\<lambda>n. n\<lparr>visible_class := True\<rparr>) w"
| "fire (RemoveNode m) w = w\<lparr>body := removeAll m (body w)\<rparr>"
| "fire (CloseModal k) w = closeModal k w"
| "fire (FocusEmail m) w =
     (if m \<in> set (body w) then update_node m (\<lambda>n. n\<lparr>email_focused := True\<rparr>) w else w)"

text \<open>The next animation frame runs the callbacks that wait for it.\<close>

definition next_frame :: "world \<Rightarrow> world" where
  "next_frame w = fold fire (frames w) (w\<lparr>frames := []\<rparr>)"

text \<open>
  The timers run one after the other: the next step takes the first pending timer, moves
  the clock to the time it is due and runs its task. \<open>settle\<close> lets every
  pending timer run, those set on the way included. Each task sets at most one timer,
  and a timer set by a task sets none, so this ends.
\<close>

definition tick :: "world \<Rightarrow> world option" where
  "tick w =
     (case timers w of
        [] \<Rightarrow> None
      | (due, t) # rest \<Rightarrow> Some (fire t (w\<lparr>timers := rest, clock := max (clock w) due\<rparr>)))"

fun task_weight :: "task \<Rightarrow> nat" where
  "task_weight (CloseModal k) = 2"
| "task_weight t = 1"

definition timer_weight :: "world \<Rightarrow> nat" where
  "timer_weight w = sum_list (map (\<lambda>x. task_weight (snd x)) (timers w))"

function settle :: "world \<Rightarrow> world" where
  "settle w = (case tick w of None \<Rightarrow> w | Some w' \<Rightarrow> settle w')"
  by pat_completeness auto
termination
proof (relation "measure timer_weight")
  show "wf (measure timer_weight)" by simp
next
  fix w w' :: world
  assume step: "tick w = Some w'"
  have ins: "sum_list (map (\<lambda>x. task_weight (snd x)) (insert_timer y ys)) =
             task_weight (snd y) + sum_list (map (\<lambda>x. task_weight (snd x)) ys)" for y ys
    by (induction ys) auto
  from step obtain due t rest where ts: "timers w = (due, t) # rest"
    and w': "w' = fire t (w\<lparr>timers := rest, clock := max (clock w) due\<rparr>)"
    by (auto simp: tick_def split: list.splits)
  have "timer_weight w' < timer_weight w"
    unfolding w' timer_weight_def ts
    by (cases t)
       (simp_all add: update_node_def closeModal_def setTimeout_def Let_def ins)
  then show "(w', w) \<in> measure timer_weight" by simp
qed

declare settle.simps [simp del]

text \<open>
  Dispatching events: a \<open>keydown\<close> on the document goes to the handlers that are
  listening when the dispatch starts, in the order they were added, and runs each that
  is still listening when its turn comes; a click on a modal's close button does the
  same with the \<open>closeModal\<close> closures added to it.
\<close>

definition dispatch_keydown :: "string \<Rightarrow> world \<Rightarrow> world" where
  "dispatch_keydown key w =
     fold (\<lambda>k v. if k \<in> set (keydown v) then handleKeydown k key v else v) (keydown w) w"

definition click_close :: "nat \<Rightarrow> world \<Rightarrow> world" where
  "click_close m w =
     fold (\<lambda>k v. if k \<in> set (close_click (nodes v m)) then closeModal k v else v)
       (close_click (nodes w m)) w"

definition initial_world :: world where
  "initial_world =
     \<lparr>nodes = (\<lambda>n. modalHTML), body = [], keydown = [], captured = (\<lambda>k. 0),
      frames = [], timers = [], clock = 0, next_node = 0, next_instance = 0,
      requests = []\<rparr>"

section \<open>Strings\<close>

text \<open>
  Strings are lists of 8-bit characters. \<open>trim\<close> removes white space and line
  terminators from both ends; of those, the tab, the line feed, the vertical tab, the
  form feed, the carriage return, the space and the no-break space are characters here.
\<close>

definition is_js_space :: "char \<Rightarrow> bool" where
  "is_js_space c =
     (c \<in> set [CHR 0x09, CHR 0x0A, CHR 0x0B, CHR 0x0C, CHR 0x0D, CHR 0x20, CHR 0xA0])"

definition trim :: "string \<Rightarrow> string" where
  "trim s = rev (dropWhile is_js_space (rev (dropWhile is_js_space s)))"

text \<open>\<open>s.includes(t)\<close>: \<open>t\<close> occurs in \<open>s\<close>.\<close>

fun str_includes :: "string \<Rightarrow> string \<Rightarrow> bool" where
  "str_includes [] t = (t = [])"
| "str_includes (c # s) t = (take (length t) (c # s) = t \<or> str_includes s t)"

text \<open>Decimal numerals, for template strings and \<open>ToString\<close>.\<close>

definition digit_char :: "nat \<Rightarrow> char" where
  "digit_char d = char_of (48 + d)"

fun show_nat :: "nat \<Rightarrow> string" where
  "show_nat n = (if n < 10 then [digit_char n] else show_nat (n div 10) @ [digit_char (n mod 10)])"

declare show_nat.simps [simp del]

definition show_int :: "int \<Rightarrow> string" where
  "show_int i = (if i < 0 then CHR ''-'' # show_nat (nat (- i)) else show_nat (nat i))"

fun join_comma :: "string list \<Rightarrow> string" where
  "join_comma [] = []"
| "join_comma [s] = s"
| "join_comma (s # t # ts) = s @ '','' @ join_comma (t # ts)"

text \<open>\<open>ToString\<close>, as \<open>new Error(v)\<close> applies it to its argument.\<close>

fun to_string :: "jsval \<Rightarrow> string"
  and element_strings :: "jsval list \<Rightarrow> string list" where
  "to_string JUndefined = ''undefined''"
| "to_string JNull = ''null''"
| "to_string (JBool b) = (if b then ''true'' else ''false'')"
| "to_string (JNum i) = show_int i"
| "to_string (JStr s) = s"
| "to_string (JArr xs) = join_comma (element_strings xs)"
| "to_string (JObj ps) = ''[object Object]''"
| "element_strings [] = []"
| "element_strings (x # xs) =
     (if x = JUndefined \<or> x = JNull then [] else to_string x) # element_strings xs"

section \<open>The request\<close>

text \<open>
  A response: its status and what \<open>response.json()\<close> settles to (the parsed body, or
  the error it rejects with). \<open>response.ok\<close> holds for a status from 200 to 299.
  The outcome of \<open>fetch\<close> is a rejection or a response.
\<close>

record response =
  status :: nat
  json_body :: "jserror + jsval"

definition ok :: "response \<Rightarrow> bool" where
  "ok r = (200 \<le> status r \<and> status r \<le> 299)"

datatype fetch_outcome = Rejected jserror | Responded response

definition network_error_message :: string where
  "network_error_message = ''Network error. Please check your connection and try again.''"

text \<open>The \<open>catch\<close> block of \<open>submitNotification\<close>: what it throws for a caught error.\<close>

definition rethrow :: "jserror \<Rightarrow> jserror" where
  "rethrow e =
     (if err_name e = ''TypeError'' \<and> str_includes (err_message e) ''fetch''
      then mk_error ''Error'' network_error_message
      else e)"

text \<open>
  The message of the error thrown for a response that is not \<open>ok\<close>:
  \<open>errorData.message || errorData.error || errorMessage\<close>, and the status text when
  the body does not parse or reading a property of it throws.
\<close>

definition http_error_message :: "response \<Rightarrow> string" where
  "http_error_message r =
     (let errorMessage = ''HTTP '' @ show_nat (status r) in
      case json_body r of
        Inl e \<Rightarrow> errorMessage
      | Inr errorData \<Rightarrow>
          (case get_prop errorData ''message'' of
             Inl e \<Rightarrow> errorMessage
           | Inr m \<Rightarrow>
               if truthy m then to_string m
               else (case get_prop errorData ''error'' of
                       Inl e \<Rightarrow> errorMessage
                     | Inr x \<Rightarrow> if truthy x then to_string x else errorMessage)))"

text \<open>
  \<open>submitNotification\<close>, given the outcome of \<open>fetch\<close>: \<open>Inl\<close> is the error its
  promise rejects with, \<open>Inr\<close> the value it resolves to. The promise of
  \<open>response.json()\<close> is returned without \<open>await\<close>, so its rejection is the
  function's own and does not pass through the \<open>catch\<close> block.
\<close>

definition submitNotification :: "fetch_outcome \<Rightarrow> jserror + jsval" where
  "submitNotification outcome =
     (case outcome of
        Rejected e \<Rightarrow> Inl (rethrow e)
      | Responded r \<Rightarrow>
          if \<not> ok r then Inl (rethrow (mk_error ''Error'' (http_error_message r)))
          else json_body r)"

section \<open>The submit handler\<close>

text \<open>\<open>showMessage\<close> on the message area of modal \<open>m\<close>.\<close>

definition showMessage :: "nat \<Rightarrow> string \<Rightarrow> string \<Rightarrow> world \<Rightarrow> world" where
  "showMessage m message ty w =
     update_node m
       (\<lambda>n. n\<lparr>message_text := message,
               message_class := ''notify-me-form__message notify-me-form__message--'' @ ty,
               message_display := ''block''\<rparr>) w"

definition invalid_email_message :: string where
  "invalid_email_message = ''Please enter a valid email address.''"

definition no_variant_message :: string where
  "no_variant_message = ''Error: Could not determine product variant.''"

definition success_message :: string where
  "success_message = ''Thank you! We'' @ [CHR 0x27] @ ''ll notify you when this product is back in stock.''"

definition fallback_error_message :: string where
  "fallback_error_message = ''Sorry, there was an error. Please try again.''"

text \<open>
  The handler is an \<open>async\<close> function: it runs to its end, or to the \<open>await\<close> of
  the request, where it waits with what it needs to go on: its instance, the modal, the
  label it read from the submit button, and the request's variant id and email.
\<close>

record pending =
  p_instance :: nat
  p_modal :: nat
  p_originalText :: string
  p_variantId :: string
  p_email :: string

datatype submit_step = Finished world | Awaiting world pending

text \<open>
  From the \<open>submit\<close> event to the \<open>await\<close>. The handler of instance \<open>k\<close> works on
  the modal that instance captured: its \<open>form\<close>, \<open>messageDiv\<close>, email input and
  submit button are parts of that modal's markup, so the guard that returns when one of
  them is missing is never taken. \<open>getVariantId\<close> reads the page, where no part of
  a modal matches any of its selectors. Sending the request is recorded in
  \<open>requests\<close>.
\<close>

definition submit_begin :: "page \<Rightarrow> nat \<Rightarrow> world \<Rightarrow> submit_step" where
  "submit_begin pg k w =
     (let m = captured w k;
          email = trim (email_value (nodes w m))
      in if email = [] \<or> \<not> str_includes email ''@'' then
           Finished (showMessage m invalid_email_message ''error'' w)
         else
           (case getVariantId pg of
              None \<Rightarrow> Finished (showMessage m no_variant_message ''error'' w)
            | Some variantId \<Rightarrow>
                if variantId = [] then Finished (showMessage m no_variant_message ''error'' w)
                else
                  (let originalText = submit_label (nodes w m);
                       w1 = update_node m
                              (\<lambda>n. n\<lparr>submit_disabled := True,
                                      submit_label := ''Submitting...''\<rparr>) w;
                       w2 = w1\<lparr>requests := requests w1 @ [(variantId, email)]\<rparr>
                   in Awaiting w2
                        \<lparr>p_instance = k, p_modal = m, p_originalText = originalText,
                         p_variantId = variantId, p_email = email\<rparr>)))"

text \<open>
  From the settled request to the end: the \<open>try\<close> block after the \<open>await\<close>, the
  \<open>catch\<close> block, and the \<open>finally\<close> block. The world is the one the handler finds
  when it goes on.
\<close>

definition submit_resume :: "pending \<Rightarrow> fetch_outcome \<Rightarrow> world \<Rightarrow> world" where
  "submit_resume p outcome w =
     (let m = p_modal p;
          w1 = (case submitNotification outcome of
                  Inr v \<Rightarrow>
                    (let wa = showMessage m success_message ''success'' w;
                         wb = update_node m (\<lambda>n. n\<lparr>email_value := []\<rparr>) wa
                     in setTimeout (CloseModal (p_instance p)) 2500 wb)
                | Inl error \<Rightarrow>
                    (let errorMessage =
                           (if err_message error \<noteq> [] then err_message error
                            else fallback_error_message)
                     in showMessage m errorMessage ''error'' w))
      in update_node m
           (\<lambda>n. n\<lparr>submit_disabled := False, submit_label := p_originalText p\<rparr>) w1)"

text \<open>The whole handler, when nothing else happens while the request is under way.\<close>

definition submit_handler :: "page \<Rightarrow> nat \<Rightarrow> fetch_outcome \<Rightarrow> world \<Rightarrow> world" where
  "submit_handler pg k outcome w =
     (case submit_begin pg k w of
        Finished w' \<Rightarrow> w'
      | Awaiting w' p \<Rightarrow> submit_resume p outcome w')"

section \<open>Example pages\<close>

definition input_el :: "nat \<Rightarrow> (string \<times> string) list \<Rightarrow> string \<Rightarrow> bool \<Rightarrow> node" where
  "input_el i as v c =
     Node \<lparr>uid = i, tag = ''input'', class_list = [], attrs = as, val = v, checked = c\<rparr> []"

definition el :: "nat \<Rightarrow> string \<Rightarrow> string list \<Rightarrow> node list \<Rightarrow> node" where
  "el i t cl cs =
     Node \<lparr>uid = i, tag = t, class_list = cl, attrs = [], val = [], checked = False\<rparr> cs"

text \<open>
  A product page: a section holding a variant input and the product form, the product
  form holding its own variant input and the component, and beside the section a variant
  picker with one input. The values of the two variant inputs, the checkedness of the
  picker's input and the URL's parameters are left open.
\<close>

definition example_page :: "string \<Rightarrow> string \<Rightarrow> bool \<Rightarrow> (string \<times> string) list \<Rightarrow> page" where
  "example_page form_value section_value picked params =
     (let comp = el 4 ''notify-me-component'' [] [];
          form = el 3 ''product-form-component'' []
                   [input_el 5 [(''name'', ''id'')] form_value False, comp];
          sect = el 1 ''div'' [''shopify-section'']
                   [input_el 2 [(''ref'', ''variantId'')] section_value False, form];
          picker = el 6 ''variant-picker'' []
                   [input_el 7 [(''data-variant-id'', ''333'')] [] picked];
          root = el 0 ''html'' [] [sect, picker]
      in \<lparr>this_chain = [comp, form, sect, root], doc_root = root, search = params\<rparr>)"

text \<open>A page with the component alone and a \<open>variant\<close> parameter in the URL.\<close>

definition url_only_page :: page where
  "url_only_page =
     (let comp = el 1 ''notify-me-component'' [] [];
          root = el 0 ''html'' [] [comp]
      in \<lparr>this_chain = [comp, root], doc_root = root, search = [(''variant'', ''222'')]\<rparr>)"

section \<open>Example components and worlds\<close>

definition example_events :: theme_events where
  "example_events = \<lparr>variantUpdate = ''variant:update'', variantSelected = ''variant:selected''\<rparr>"

definition example_component :: component where
  "example_component =
     \<lparr>host_display = ''none'',
      notify_button = Some \<lparr>btn_display = ''none'', btn_click = []\<rparr>,
      boundVariantUpdateHandler = None\<rparr>"

definition no_listeners :: registry where
  "no_listeners = \<lparr>listeners = (\<lambda>t. []), next_closure = 0\<rparr>"

text \<open>
  The inclusive ancestors of a component that stands inside a section, and those of the
  same component once \<open>remove()\<close> has taken it out of its parent: the
  \<open>disconnectedCallback\<close> runs after the removal, when the component has no parent.
\<close>

definition attached_chain :: "node list" where
  "attached_chain =
     (let comp = el 2 ''notify-me-component'' [] [];
          sect = el 1 ''div'' [''shopify-section''] [comp];
          root = el 0 ''html'' [] [sect]
      in [comp, sect, root])"

definition detached_chain :: "node list" where
  "detached_chain = [el 2 ''notify-me-component'' [] []]"

text \<open>A page that offers no variant at all.\<close>

definition no_variant_page :: page where
  "no_variant_page =
     (let comp = el 1 ''notify-me-component'' [] [];
          root = el 0 ''html'' [] [comp]
      in \<lparr>this_chain = [comp, root], doc_root = root, search = []\<rparr>)"

text \<open>The user types into the email field of modal \<open>m\<close>.\<close>

definition type_email :: "nat \<Rightarrow> string \<Rightarrow> world \<Rightarrow> world" where
  "type_email m s w = update_node m (\<lambda>n. n\<lparr>email_value := s\<rparr>) w"

text \<open>One modal opened on an empty document, with \<open>s\<close> in its email field.\<close>

definition open_modal_with :: "string \<Rightarrow> world" where
  "open_modal_with s = type_email 0 s (showEmailModal initial_world)"

text \<open>The modal opened twice in succession on an empty document.\<close>

definition opened_twice :: world where
  "opened_twice = showEmailModal (showEmailModal initial_world)"

section \<open>Notions of the specification\<close>

text \<open>An email the validation accepts: not empty, and holding an \<open>@\<close>.\<close>

definition valid_email :: "string \<Rightarrow> bool" where
  "valid_email s = (s \<noteq> [] \<and> CHR ''@'' \<in> set s)"

text \<open>
  What of the document can be observed: the modals in the body, the document's
  \<open>keydown\<close> listeners, and the state of every modal node.
\<close>

definition dom_state :: "world \<Rightarrow> nat list \<times> nat list \<times> (nat \<Rightarrow> modal_node)" where
  "dom_state w = (body w, keydown w, nodes w)"

text \<open>
  Every \<open>keydown\<close> listener of the document belongs to an instance of
  \<open>showEmailModal\<close> that has run.
\<close>

definition keydown_bounded :: "world \<Rightarrow> bool" where
  "keydown_bounded w = list_all (\<lambda>j. j < next_instance w) (keydown w)"

text \<open>Two worlds that agree in everything but their timers.\<close>

definition same_besides_timers :: "world \<Rightarrow> world \<Rightarrow> bool" where
  "same_besides_timers w1 w2 =
     (nodes w2 = nodes w1 \<and> body w2 = body w1 \<and> keydown w2 = keydown w1 \<and>
      captured w2 = captured w1 \<and> frames w2 = frames w1 \<and> clock w2 = clock w1 \<and>
      next_node w2 = next_node w1 \<and> next_instance w2 = next_instance w1 \<and>
      requests w2 = requests w1 \<and> world.more w2 = world.more w1)"

text \<open>
  Two worlds that differ in one thing: where the first has a pending removal of a node,
  the second has the same removal twice in a row.
\<close>

definition twin_removal :: "world \<Rightarrow> world \<Rightarrow> bool" where
  "twin_removal w1 w2 =
     (same_besides_timers w1 w2 \<and>
      (\<exists>pre post due m.
         timers w1 = pre @ (due, RemoveNode m) # post \<and>
         timers w2 = pre @ (due, RemoveNode m) # (due, RemoveNode m) # post))"

section \<open>Visibility follows availability\<close>

lemma unavailable_iff:
  "(truthy (opt_chain d ''resource'') \<and>
      get_prop (opt_chain d ''resource'') ''available'' = Inr (JBool False))
   = resource_unavailable d"
proof (cases d)
  case (JObj ps)
  show ?thesis
  proof (cases "map_of ps ''resource''")
    case None
    with JObj show ?thesis
      by (simp add: resource_unavailable_def resource_of_def)
  next
    case (Some r)
    with JObj show ?thesis
      by (cases r)
         (auto simp: resource_unavailable_def resource_of_def available_of_def
               split: option.splits)
  qed
qed (simp_all add: resource_unavailable_def resource_of_def)


text \<open>
  C1. When the component has its notify button, \<open>handleVariantUpdate\<close> leaves the
  control visible (the host shown as a block, the button as a flex box) exactly when
  the payload is an object whose \<open>resource\<close> is an object whose \<open>available\<close> is
  the boolean \<open>false\<close>; for every other payload (an available resource, a resource
  with no boolean flag, a null or missing resource, a payload that is no object) it
  leaves the control hidden (both with \<open>display: none\<close>).
\<close>

theorem handleVariantUpdate_visibility:
  assumes "notify_button c = Some nb"
  shows "(control_visible (handleVariantUpdate d c) \<longleftrightarrow> resource_unavailable d) \<and>
         (control_hidden (handleVariantUpdate d c) \<longleftrightarrow> \<not> resource_unavailable d)"
proof (cases "resource_unavailable d")
  case True
  then have "truthy (opt_chain d ''resource'') \<and>
      get_prop (opt_chain d ''resource'') ''available'' = Inr (JBool False)"
    by (simp add: unavailable_iff)
  with assms True show ?thesis
    by (simp add: handleVariantUpdate_def control_visible_def control_hidden_def)
next
  case False
  then have "\<not> (truthy (opt_chain d ''resource'') \<and>
      get_prop (opt_chain d ''resource'') ''available'' = Inr (JBool False))"
    by (simp add: unavailable_iff)
  with assms False show ?thesis
    by (auto simp: handleVariantUpdate_def control_visible_def control_hidden_def Let_def)
qed

theorem handleVariantUpdate_visibility_witness:
  "control_visible
     (handleVariantUpdate
        (JObj [(''resource'', JObj [(''id'', JNum 42), (''available'', JBool False)])])
        \<lparr>host_display = ''none'',
         notify_button = Some \<lparr>btn_display = ''none'', btn_click = []\<rparr>,
         boundVariantUpdateHandler = None\<rparr>) \<and>
   control_hidden
     (handleVariantUpdate
        (JObj [(''resource'', JObj [(''id'', JNum 42), (''available'', JBool True)])])
        \<lparr>host_display = ''block'',
         notify_button = Some \<lparr>btn_display = ''flex'', btn_click = []\<rparr>,
         boundVariantUpdateHandler = None\<rparr>) \<and>
   control_hidden
     (handleVariantUpdate
        (JObj [(''resource'', JNull)])
        \<lparr>host_display = ''block'',
         notify_button = Some \<lparr>btn_display = ''flex'', btn_click = []\<rparr>,
         boundVariantUpdateHandler = None\<rparr>)"
  using
    handleVariantUpdate_visibility
      [of "\<lparr>host_display = ''none'',
            notify_button = Some \<lparr>btn_display = ''none'', btn_click = []\<rparr>,
            boundVariantUpdateHandler = None\<rparr>"
          "\<lparr>btn_display = ''none'', btn_click = []\<rparr>"
          "JObj [(''resource'', JObj [(''id'', JNum 42), (''available'', JBool False)])]"]
    handleVariantUpdate_visibility
      [of "\<lparr>host_display = ''block'',
            notify_button = Some \<lparr>btn_display = ''flex'', btn_click = []\<rparr>,
            boundVariantUpdateHandler = None\<rparr>"
          "\<lparr>btn_display = ''flex'', btn_click = []\<rparr>"
          "JObj [(''resource'', JObj [(''id'', JNum 42), (''available'', JBool True)])]"]
    handleVariantUpdate_visibility
      [of "\<lparr>host_display = ''block'',
            notify_button = Some \<lparr>btn_display = ''flex'', btn_click = []\<rparr>,
            boundVariantUpdateHandler = None\<rparr>"
          "\<lparr>btn_display = ''flex'', btn_click = []\<rparr>"
          "JObj [(''resource'', JNull)]"]
  by (simp add: resource_unavailable_def resource_of_def available_of_def)

text \<open>Without the button the handler returns at once and changes nothing.\<close>

theorem handleVariantUpdate_no_button:
  "notify_button c = None \<Longrightarrow> handleVariantUpdate d c = c"
  by (simp add: handleVariantUpdate_def)

theorem handleVariantUpdate_no_button_witness:
  "handleVariantUpdate
     (JObj [(''resource'', JObj [(''id'', JNum 42), (''available'', JBool False)])])
     \<lparr>host_display = ''none'', notify_button = None, boundVariantUpdateHandler = None\<rparr>
   = \<lparr>host_display = ''none'', notify_button = None, boundVariantUpdateHandler = None\<rparr>"
  using handleVariantUpdate_no_button
    [of "\<lparr>host_display = ''none'', notify_button = None, boundVariantUpdateHandler = None\<rparr>"]
  by simp

section \<open>The order of variant resolution\<close>

lemma find_append_case:
  "List.find P (xs @ ys) = (case List.find P xs of Some x \<Rightarrow> Some x | None \<Rightarrow> List.find P ys)"
  by (induction xs) auto

lemma find_take1:
  "List.find P (map f (take 1 xs)) =
     (case xs of [] \<Rightarrow> None | x # _ \<Rightarrow> if P (f x) then Some (f x) else None)"
  by (cases xs) auto

lemma find_nonempty: "List.find (\<lambda>v. v \<noteq> []) xs \<noteq> Some []"
  by (induction xs) auto

lemma from_product_form_tier1:
  "from_product_form pg = List.find (\<lambda>v. v \<noteq> []) (tier1_values pg)"
  by (auto simp: from_product_form_def tier1_values_def querySelector_def find_take1
           split: option.splits list.splits)

text \<open>The loop over the section's inputs finds the first value that is not empty.\<close>

lemma first_input_value_find:
  "first_input_value ns = List.find (\<lambda>v. v \<noteq> []) (map (\<lambda>d. val (elem_of d)) ns)"
  by (induction ns) auto

lemma from_section_tier2:
  "from_section pg = List.find (\<lambda>v. v \<noteq> []) (tier2_values pg)"
  by (simp add: from_section_def tier2_values_def first_input_value_find split: option.splits)

lemma from_variant_picker_tier3:
  "from_variant_picker pg = List.find (\<lambda>v. v \<noteq> []) (tier3_values pg)"
  by (auto simp: from_variant_picker_def tier3_values_def querySelector_def
           split: option.splits list.splits)

lemma from_url_tier4:
  "from_url pg = List.find (\<lambda>v. v \<noteq> []) (tier4_values pg)"
  by (auto simp: from_url_def tier4_values_def urlParams_get_def split: option.splits)

lemma getVariantId_refines:
  "getVariantId pg = resolve_variant pg"
  by (simp add: getVariantId_def resolve_variant_def find_append_case
        from_product_form_tier1 from_section_tier2 from_variant_picker_tier3 from_url_tier4
      split: option.splits)

text \<open>
  C2. \<open>getVariantId\<close> returns the first value that is not empty among the values its
  four sources offer, taken in the order (1) the first variant input inside the nearest
  product-form ancestor, (2) the variant inputs of the nearest enclosing section in tree
  order, (3) the variant-id data attribute of the first checked input inside the page's
  first variant picker, (4) the \<open>variant\<close> parameter of the URL; it returns null
  when there is none, and never an empty string. In particular a value of the product
  form wins over everything after it, the URL parameter included, and a URL parameter
  alone is used.
\<close>

theorem getVariantId_order:
  "getVariantId pg = resolve_variant pg \<and>
   getVariantId pg \<noteq> Some [] \<and>
   (\<forall>v. List.find (\<lambda>v. v \<noteq> []) (tier1_values pg) = Some v \<longrightarrow> getVariantId pg = Some v) \<and>
   (\<forall>v. tier1_values pg = [] \<and> tier2_values pg = [] \<and> tier3_values pg = [] \<and>
        tier4_values pg = [v] \<and> v \<noteq> [] \<longrightarrow> getVariantId pg = Some v)"
proof -
  have eq: "getVariantId pg = resolve_variant pg"
    by (rule getVariantId_refines)
  have ne: "getVariantId pg \<noteq> Some []"
    unfolding eq resolve_variant_def by (rule find_nonempty)
  have t1: "getVariantId pg = Some v"
    if "List.find (\<lambda>v. v \<noteq> []) (tier1_values pg) = Some v" for v
    using that unfolding eq resolve_variant_def by (simp add: find_append_case)
  have t4: "getVariantId pg = Some v"
    if "tier1_values pg = [] \<and> tier2_values pg = [] \<and> tier3_values pg = [] \<and>
        tier4_values pg = [v] \<and> v \<noteq> []" for v
    using that unfolding eq resolve_variant_def by simp
  from eq ne t1 t4 show ?thesis by blast
qed

theorem getVariantId_order_witness:
  "getVariantId (example_page ''111'' ''999'' True [(''variant'', ''222'')]) = Some ''111'' \<and>
   getVariantId url_only_page = Some ''222'' \<and>
   getVariantId (example_page [] ''999'' True [(''variant'', ''222'')]) = Some ''999'' \<and>
   getVariantId (example_page [] [] True [(''variant'', ''222'')]) = Some ''333'' \<and>
   getVariantId (example_page [] [] False [(''variant'', ''222'')]) = Some ''222'' \<and>
   getVariantId (example_page [] [] False [(''other'', ''222'')]) = None"
proof -
  let ?p1 = "example_page ''111'' ''999'' True [(''variant'', ''222'')]"
  have "List.find (\<lambda>v. v \<noteq> []) (tier1_values ?p1) = Some ''111''"
    by code_simp
  with getVariantId_order [of ?p1] have r1: "getVariantId ?p1 = Some ''111''"
    by blast
  have "tier1_values url_only_page = [] \<and> tier2_values url_only_page = [] \<and>
        tier3_values url_only_page = [] \<and> tier4_values url_only_page = [''222''] \<and>
        ''222'' \<noteq> []"
    by code_simp
  with getVariantId_order [of url_only_page] have r2: "getVariantId url_only_page = Some ''222''"
    by blast
  have r3: "getVariantId (example_page [] ''999'' True [(''variant'', ''222'')]) = Some ''999''"
    by code_simp
  have r4: "getVariantId (example_page [] [] True [(''variant'', ''222'')]) = Some ''333''"
    by code_simp
  have r5: "getVariantId (example_page [] [] False [(''variant'', ''222'')]) = Some ''222''"
    by code_simp
  have r6: "getVariantId (example_page [] [] False [(''other'', ''222'')]) = None"
    by code_simp
  from r1 r2 r3 r4 r5 r6 show ?thesis by simp
qed


section \<open>Listeners of the variant events\<close>

lemma listeners_add:
  "listeners (addEventListener t ty cb r) t' =
     (if t' = t \<and> (ty, cb) \<notin> set (listeners r t) then listeners r t @ [(ty, cb)]
      else listeners r t')"
  by (simp add: addEventListener_def)

lemma listeners_remove:
  "listeners (removeEventListener t ty cb r) t' =
     (if t' = t then removeAll (ty, cb) (listeners r t) else listeners r t')"
  by (simp add: removeEventListener_def)

text \<open>Removal from another scope leaves the listeners of the first scope where they are.\<close>

lemma disconnect_other_scope:
  assumes "listener_scope chain' \<noteq> t"
  shows "listeners (snd (disconnectedCallback te chain' (c, r))) t = listeners r t"
  using assms
  by (simp add: disconnectedCallback_def Let_def listeners_remove split: option.splits)

text \<open>
  When the scope found at detachment is the scope found at attachment, and no listener
  of the registry is a closure yet to be made, the two listeners are removed and every
  listener list is what it was before the component was attached.
\<close>

theorem disconnect_same_scope:
  assumes fresh: "\<forall>t ty h. (ty, h) \<in> set (listeners r t) \<longrightarrow> h < next_closure r"
      and same: "listener_scope chain' = listener_scope chain"
  shows "listeners (snd (disconnectedCallback te chain' (connectedCallback te chain (c, r))))
         = listeners r"
proof -
  obtain c1 r1 where s1: "setupNotifyButton (c, r) = (c1, r1)"
    by (cases "setupNotifyButton (c, r)")
  have l1: "listeners r1 = listeners r" and n1: "next_closure r \<le> next_closure r1"
    using s1 by (auto simp: setupNotifyButton_def split: option.splits)
  let ?h = "next_closure r1" and ?t = "listener_scope chain"
  have nin: "(ty, ?h) \<notin> set (listeners r t)" for ty t
    using fresh n1 by (metis not_le)
  have "removeAll (variantSelected te, ?h) (removeAll (variantUpdate te, ?h)
          (listeners (addEventListener ?t (variantSelected te) ?h
             (addEventListener ?t (variantUpdate te) ?h (r1\<lparr>next_closure := Suc ?h\<rparr>))) ?t))
        = listeners r ?t"
    using nin [of "variantUpdate te" ?t] nin [of "variantSelected te" ?t]
    by (auto simp: addEventListener_def l1)
  then show ?thesis
    using s1 same
    by (auto simp: connectedCallback_def setupVariantUpdateListener_def Let_def
          disconnectedCallback_def removeEventListener_def addEventListener_def l1 fun_eq_iff)
qed


theorem disconnect_same_scope_witness:
  "listeners
     (snd (disconnectedCallback example_events attached_chain
             (connectedCallback example_events attached_chain
                (example_component, no_listeners))))
   = listeners no_listeners"
proof -
  have f: "\<forall>t ty h. (ty, h) \<in> set (listeners no_listeners t) \<longrightarrow> h < next_closure no_listeners"
    by (simp add: no_listeners_def)
  from disconnect_same_scope [OF f refl] show ?thesis .
qed


text \<open>
  C9. The scope is computed anew in \<open>disconnectedCallback\<close>, from the ancestors the
  component has after it was disconnected. For a component inside a section that is
  taken out of its parent, attachment adds the two listeners to the section and
  detachment looks for them on the document: the section keeps both listeners.
\<close>

theorem disconnect_after_remove_leaks:
  "listener_scope attached_chain = Element 1 \<and>
   listener_scope detached_chain = Document \<and>
   listeners
     (snd (disconnectedCallback example_events detached_chain
             (connectedCallback example_events attached_chain
                (example_component, no_listeners))))
     (Element 1)
   = [(''variant:update'', 1), (''variant:selected'', 1)]"
  by (simp add: attached_chain_def detached_chain_def listener_scope_def el_def Let_def
        sel_section_def disconnectedCallback_def connectedCallback_def
        setupVariantUpdateListener_def setupNotifyButton_def example_component_def
        no_listeners_def example_events_def addEventListener_def removeEventListener_def)



section \<open>The keydown listeners of the modal\<close>

lemma closeModal_fields:
  "keydown (closeModal k w) = removeAll k (keydown w)"
  "body (closeModal k w) = body w"
  "nodes (closeModal k w) =
     (nodes w)(captured w k := (nodes w (captured w k))\<lparr>visible_class := False\<rparr>)"
  "timers (closeModal k w) = insert_timer (clock w + 300, RemoveNode (captured w k)) (timers w)"
  "captured (closeModal k w) = captured w"
  "frames (closeModal k w) = frames w"
  "clock (closeModal k w) = clock w"
  "next_node (closeModal k w) = next_node w"
  "next_instance (closeModal k w) = next_instance w"
  "requests (closeModal k w) = requests w"
  by (simp_all add: closeModal_def update_node_def setTimeout_def Let_def)

lemma showEmailModal_fields:
  "body (showEmailModal w) = body w @ [next_node w]"
  "keydown (showEmailModal w) = add_listener (next_instance w) (keydown w)"
  "captured (showEmailModal w) = (captured w)(next_instance w := hd (body w @ [next_node w]))"
  "next_instance (showEmailModal w) = Suc (next_instance w)"
  "next_node (showEmailModal w) = Suc (next_node w)"
  "clock (showEmailModal w) = clock w"
  "requests (showEmailModal w) = requests w"
  by (cases "body w"; simp add: showEmailModal_def update_node_def setTimeout_def Let_def)+

lemma keydown_bounded_fresh:
  "keydown_bounded w \<Longrightarrow> next_instance w \<notin> set (keydown w)"
  by (auto simp: keydown_bounded_def list_all_iff)

lemma keydown_bounded_open:
  "keydown_bounded w \<Longrightarrow> keydown_bounded (showEmailModal w)"
  by (auto simp: keydown_bounded_def list_all_iff showEmailModal_fields add_listener_def)

lemma keydown_bounded_close:
  "keydown_bounded w \<Longrightarrow> keydown_bounded (closeModal k w)"
  by (auto simp: keydown_bounded_def list_all_iff closeModal_fields)

lemma keydown_bounded_fire:
  "keydown_bounded w \<Longrightarrow> keydown_bounded (fire t w)"
  by (cases t) (auto simp: keydown_bounded_close, auto simp: keydown_bounded_def update_node_def)

lemma keydown_bounded_initial: "keydown_bounded initial_world"
  by (simp add: keydown_bounded_def initial_world_def)

lemma keydown_open:
  "keydown_bounded w \<Longrightarrow> keydown (showEmailModal w) = keydown w @ [next_instance w]"
  by (simp add: showEmailModal_fields add_listener_def keydown_bounded_fresh)


text \<open>
  C8, as the code has it. Every open adds one \<open>keydown\<close> listener of its own to the
  document, a listener that was not there before, so two opens in succession leave two
  listeners; every close removes the listener of its own instance and no other, whatever
  the state: closing after one open restores the listeners, and closing either of two
  opens leaves the listener of the other.
\<close>

theorem keydown_listener_per_open:
  assumes "keydown_bounded w"
  shows "next_instance w \<notin> set (keydown w) \<and>
         keydown (showEmailModal w) = keydown w @ [next_instance w] \<and>
         keydown (showEmailModal (showEmailModal w)) =
           keydown w @ [next_instance w, Suc (next_instance w)] \<and>
         (\<forall>k w'. keydown (closeModal k w') = filter (\<lambda>j. j \<noteq> k) (keydown w')) \<and>
         keydown (closeModal (next_instance w) (showEmailModal w)) = keydown w \<and>
         keydown (closeModal (next_instance w) (showEmailModal (showEmailModal w))) =
           keydown w @ [Suc (next_instance w)] \<and>
         keydown (closeModal (Suc (next_instance w)) (showEmailModal (showEmailModal w))) =
           keydown w @ [next_instance w]"
proof -
  let ?k = "next_instance w"
  have fresh: "?k \<notin> set (keydown w)"
    using assms by (rule keydown_bounded_fresh)
  have fresh': "Suc ?k \<notin> set (keydown w)"
    using assms by (auto simp: keydown_bounded_def list_all_iff)
  have one: "keydown (showEmailModal w) = keydown w @ [?k]"
    using assms by (rule keydown_open)
  have two: "keydown (showEmailModal (showEmailModal w)) = keydown w @ [?k, Suc ?k]"
  proof -
    have "keydown (showEmailModal (showEmailModal w)) =
          keydown (showEmailModal w) @ [next_instance (showEmailModal w)]"
      using keydown_bounded_open [OF assms] by (rule keydown_open)
    then show ?thesis
      by (simp only: one showEmailModal_fields(4)) simp
  qed
  have close: "keydown (closeModal k w') = filter (\<lambda>j. j \<noteq> k) (keydown w')" for k w'
    by (simp add: closeModal_fields removeAll_filter_not_eq) metis
  have own: "keydown (closeModal ?k (showEmailModal w)) = keydown w"
    using fresh by (simp add: closeModal_fields one)
  have first: "keydown (closeModal ?k (showEmailModal (showEmailModal w))) = keydown w @ [Suc ?k]"
    using fresh by (simp add: closeModal_fields two)
  have second: "keydown (closeModal (Suc ?k) (showEmailModal (showEmailModal w))) = keydown w @ [?k]"
    using fresh' by (simp add: closeModal_fields two)
  from fresh one two close own first second show ?thesis by blast
qed

theorem keydown_listener_per_open_witness:
  "keydown (showEmailModal initial_world) = [0] \<and>
   keydown (showEmailModal (showEmailModal initial_world)) = [0, 1] \<and>
   keydown (closeModal 0 (showEmailModal initial_world)) = [] \<and>
   keydown (closeModal 0 (showEmailModal (showEmailModal initial_world))) = [1] \<and>
   keydown (closeModal 1 (showEmailModal (showEmailModal initial_world))) = [0]"
  using keydown_listener_per_open [OF keydown_bounded_initial]
  by (simp add: initial_world_def)


text \<open>
  C8, as stated, fails: after two opens in succession the document has two
  \<open>keydown\<close> listeners, and both instances captured the first modal, since the
  lookup by id finds the first element of that id. One press of Escape runs both and
  removes both listeners; the first modal is removed, while the second stays in the
  body with no listener on its close button.
\<close>

theorem two_opens_two_keydown_listeners:
  "keydown opened_twice = [0, 1] \<and>
   captured opened_twice 0 = 0 \<and> captured opened_twice 1 = 0 \<and>
   body opened_twice = [0, 1] \<and>
   keydown (dispatch_keydown ''Escape'' opened_twice) = [] \<and>
   body (settle (dispatch_keydown ''Escape'' opened_twice)) = [1] \<and>
   close_click (nodes opened_twice 1) = []"
proof -
  have a: "keydown opened_twice = [0, 1]" by code_simp
  have b: "captured opened_twice 0 = 0" by code_simp
  have c: "captured opened_twice 1 = 0" by code_simp
  have d: "body opened_twice = [0, 1]" by code_simp
  have e: "keydown (dispatch_keydown ''Escape'' opened_twice) = []" by code_simp
  have f: "body (settle (dispatch_keydown ''Escape'' opened_twice)) = [1]" by code_simp
  have g: "close_click (nodes opened_twice 1) = []" by code_simp
  from a b c d e f g show ?thesis by simp
qed


section \<open>Closing twice\<close>

text \<open>Setting a timer keeps a repeated entry repeated.\<close>

lemma insert_timer_twin:
  "\<exists>pre' post'.
     insert_timer y (pre @ x # post) = pre' @ x # post' \<and>
     insert_timer y (pre @ x # x # post) = pre' @ x # x # post'"
proof (induction pre)
  case Nil
  show ?case
  proof (cases "fst x \<le> fst y")
    case True
    then have "insert_timer y ([] @ x # post) = [] @ x # insert_timer y post \<and>
               insert_timer y ([] @ x # x # post) = [] @ x # x # insert_timer y post"
      by simp
    then show ?thesis by blast
  next
    case False
    then have "insert_timer y ([] @ x # post) = [y] @ x # post \<and>
               insert_timer y ([] @ x # x # post) = [y] @ x # x # post"
      by simp
    then show ?thesis by blast
  qed
next
  case (Cons a pre)
  then obtain pre' post' where
    ih: "insert_timer y (pre @ x # post) = pre' @ x # post'"
        "insert_timer y (pre @ x # x # post) = pre' @ x # x # post'"
    by blast
  show ?case
  proof (cases "fst a \<le> fst y")
    case True
    with ih have "insert_timer y ((a # pre) @ x # post) = (a # pre') @ x # post' \<and>
                  insert_timer y ((a # pre) @ x # x # post) = (a # pre') @ x # x # post'"
      by simp
    then show ?thesis by blast
  next
    case False
    then have "insert_timer y ((a # pre) @ x # post) = (y # a # pre) @ x # post \<and>
               insert_timer y ((a # pre) @ x # x # post) = (y # a # pre) @ x # x # post"
      by simp
    then show ?thesis by blast
  qed
qed

lemma insert_timer_self:
  "\<exists>pre post. insert_timer x ts = pre @ x # post \<and>
     insert_timer x (insert_timer x ts) = pre @ x # x # post"
proof (induction ts)
  case Nil
  have "insert_timer x [] = [] @ x # [] \<and> insert_timer x (insert_timer x []) = [] @ x # x # []"
    by simp
  then show ?case by blast
next
  case (Cons a ts)
  then obtain pre post where
    ih: "insert_timer x ts = pre @ x # post"
        "insert_timer x (insert_timer x ts) = pre @ x # x # post"
    by blast
  show ?case
  proof (cases "fst a \<le> fst x")
    case True
    with ih have "insert_timer x (a # ts) = (a # pre) @ x # post \<and>
                  insert_timer x (insert_timer x (a # ts)) = (a # pre) @ x # x # post"
      by simp
    then show ?thesis by blast
  next
    case False
    then have "insert_timer x (a # ts) = [] @ x # (a # ts) \<and>
               insert_timer x (insert_timer x (a # ts)) = [] @ x # x # (a # ts)"
      by simp
    then show ?thesis by blast
  qed
qed


lemma same_besides_timers_eq:
  "same_besides_timers w1 w2 \<Longrightarrow> timers w2 = timers w1 \<Longrightarrow> w2 = w1"
  by (simp add: same_besides_timers_def)

lemma twin_removal_fire:
  assumes same: "same_besides_timers v1 v2"
      and t1: "timers v1 = pre @ (due, RemoveNode m) # post"
      and t2: "timers v2 = pre @ (due, RemoveNode m) # (due, RemoveNode m) # post"
  shows "twin_removal (fire t v1) (fire t v2)"
proof (cases t)
  case (CloseModal k)
  obtain pre' post' where
    "insert_timer (clock v1 + 300, RemoveNode (captured v1 k)) (pre @ (due, RemoveNode m) # post)
       = pre' @ (due, RemoveNode m) # post'"
    "insert_timer (clock v1 + 300, RemoveNode (captured v1 k))
       (pre @ (due, RemoveNode m) # (due, RemoveNode m) # post)
       = pre' @ (due, RemoveNode m) # (due, RemoveNode m) # post'"
    using insert_timer_twin by blast
  with CloseModal same t1 t2 show ?thesis
    by (simp add: twin_removal_def same_besides_timers_def closeModal_def setTimeout_def
          update_node_def Let_def) blast
next
  case (AddVisibleClass n)
  with same t1 t2 show ?thesis
    by (simp add: twin_removal_def same_besides_timers_def update_node_def) blast
next
  case (RemoveNode n)
  with same t1 t2 show ?thesis
    by (simp add: twin_removal_def same_besides_timers_def) blast
next
  case (FocusEmail n)
  with same t1 t2 show ?thesis
    by (simp add: twin_removal_def same_besides_timers_def update_node_def) blast
qed

lemma settle_unfold_Some: "tick w = Some w' \<Longrightarrow> settle w = settle w'"
  by (subst settle.simps) simp

lemma settle_unfold_None: "tick w = None \<Longrightarrow> settle w = w"
  by (subst settle.simps) simp

lemma settle_twin_removal:
  "twin_removal w1 w2 \<Longrightarrow> settle w2 = settle w1"
proof (induction w1 arbitrary: w2 rule: settle.induct)
  case (1 w1)
  from "1.prems" obtain pre post due m where
    same: "same_besides_timers w1 w2" and
    t1: "timers w1 = pre @ (due, RemoveNode m) # post" and
    t2: "timers w2 = pre @ (due, RemoveNode m) # (due, RemoveNode m) # post"
    by (auto simp: twin_removal_def)
  show ?case
  proof (cases pre)
    case Nil
    let ?w1' = "fire (RemoveNode m) (w1\<lparr>timers := post, clock := max (clock w1) due\<rparr>)"
    let ?w2' = "fire (RemoveNode m)
                  (w2\<lparr>timers := (due, RemoveNode m) # post, clock := max (clock w2) due\<rparr>)"
    let ?w2'' = "fire (RemoveNode m) (?w2'\<lparr>timers := post, clock := max (clock ?w2') due\<rparr>)"
    have a: "tick w1 = Some ?w1'" using Nil t1 by (simp add: tick_def)
    have b: "tick w2 = Some ?w2'" using Nil t2 by (simp add: tick_def)
    have c: "tick ?w2' = Some ?w2''" by (simp add: tick_def)
    have "same_besides_timers ?w1' ?w2''"
      using same by (simp add: same_besides_timers_def)
    moreover have "timers ?w2'' = timers ?w1'" by simp
    ultimately have e: "?w2'' = ?w1'" by (rule same_besides_timers_eq)
    have "settle w2 = settle ?w2''"
      using settle_unfold_Some [OF b] settle_unfold_Some [OF c] by simp
    with e settle_unfold_Some [OF a] show ?thesis by simp
  next
    case (Cons a pre')
    obtain d t where a: "a = (d, t)" by (cases a)
    let ?v1 = "w1\<lparr>timers := pre' @ (due, RemoveNode m) # post, clock := max (clock w1) d\<rparr>"
    let ?v2 = "w2\<lparr>timers := pre' @ (due, RemoveNode m) # (due, RemoveNode m) # post,
                   clock := max (clock w2) d\<rparr>"
    have s1: "tick w1 = Some (fire t ?v1)" using Cons a t1 by (simp add: tick_def)
    have s2: "tick w2 = Some (fire t ?v2)" using Cons a t2 by (simp add: tick_def)
    have "same_besides_timers ?v1 ?v2"
      using same by (simp add: same_besides_timers_def)
    then have "twin_removal (fire t ?v1) (fire t ?v2)"
      by (rule twin_removal_fire) simp_all
    then have "settle (fire t ?v2) = settle (fire t ?v1)"
      using "1.IH" [OF s1] by simp
    then show ?thesis
      using settle_unfold_Some [OF s1] settle_unfold_Some [OF s2] by simp
  qed
qed

lemma closeModal_twice_twin:
  "twin_removal (closeModal k w) (closeModal k (closeModal k w))"
proof -
  let ?x = "(clock w + 300, RemoveNode (captured w k))"
  obtain pre post where
    p: "insert_timer ?x (timers w) = pre @ ?x # post"
       "insert_timer ?x (insert_timer ?x (timers w)) = pre @ ?x # ?x # post"
    using insert_timer_self by blast
  then show ?thesis
    by (simp add: twin_removal_def same_besides_timers_def closeModal_def setTimeout_def
          update_node_def Let_def) blast
qed

lemma set_insert_timer: "set (insert_timer x ts) = insert x (set ts)"
  by (induction ts) auto

lemma fire_keeps_timers: "set (timers w) \<subseteq> set (timers (fire t w))"
  by (cases t) (auto simp: update_node_def closeModal_def setTimeout_def Let_def set_insert_timer)

lemma fire_body: "set (body (fire t w)) \<subseteq> set (body w)"
  by (cases t) (auto simp: update_node_def closeModal_def setTimeout_def Let_def)

lemma fire_keydown: "set (keydown (fire t w)) \<subseteq> set (keydown w)"
  by (cases t) (auto simp: update_node_def closeModal_def setTimeout_def Let_def)

lemma settle_shrinks:
  "set (body (settle w)) \<subseteq> set (body w) \<and> set (keydown (settle w)) \<subseteq> set (keydown w)"
proof (induction w rule: settle.induct)
  case (1 w)
  show ?case
  proof (cases "tick w")
    case None
    then show ?thesis by (simp add: settle_unfold_None)
  next
    case (Some w')
    then obtain due t rest where w': "w' = fire t (w\<lparr>timers := rest, clock := max (clock w) due\<rparr>)"
      by (auto simp: tick_def split: list.splits)
    have "set (body w') \<subseteq> set (body w)" "set (keydown w') \<subseteq> set (keydown w)"
      unfolding w' using fire_body fire_keydown by force+
    with "1.IH" [OF Some] show ?thesis
      by (auto simp: settle_unfold_Some [OF Some])
  qed
qed

lemma settle_no_timers: "timers (settle w) = []"
proof (induction w rule: settle.induct)
  case (1 w)
  show ?case
  proof (cases "tick w")
    case None
    then show ?thesis by (auto simp: settle_unfold_None tick_def split: list.splits prod.splits)
  next
    case (Some w')
    with "1.IH" [OF Some] show ?thesis by (simp add: settle_unfold_Some [OF Some])
  qed
qed

text \<open>A node whose removal is pending is out of the body once the timers have run.\<close>

lemma settle_removes:
  "(due, RemoveNode m) \<in> set (timers w) \<Longrightarrow> m \<notin> set (body (settle w))"
proof (induction w rule: settle.induct)
  case (1 w)
  from "1.prems" obtain d t rest where ts: "timers w = (d, t) # rest"
    by (cases "timers w") auto
  let ?v = "w\<lparr>timers := rest, clock := max (clock w) d\<rparr>"
  have step: "tick w = Some (fire t ?v)" using ts by (simp add: tick_def)
  show ?case
  proof (cases "(d, t) = (due, RemoveNode m)")
    case True
    then have "m \<notin> set (body (fire t ?v))" by auto
    then have "m \<notin> set (body (settle (fire t ?v)))"
      using settle_shrinks by blast
    then show ?thesis by (simp add: settle_unfold_Some [OF step])
  next
    case False
    with "1.prems" ts have "(due, RemoveNode m) \<in> set (timers ?v)" by auto
    then have "(due, RemoveNode m) \<in> set (timers (fire t ?v))"
      using fire_keeps_timers by blast
    then have "m \<notin> set (body (settle (fire t ?v)))"
      by (rule "1.IH" [OF step])
    then show ?thesis by (simp add: settle_unfold_Some [OF step])
  qed
qed

lemma fire_captured: "captured (fire t w) = captured w"
  by (cases t) (simp_all add: update_node_def closeModal_fields)

text \<open>A modal whose close is pending is out of the body once the timers have run.\<close>

lemma settle_closes:
  "(due, CloseModal k) \<in> set (timers w) \<Longrightarrow> captured w k \<notin> set (body (settle w))"
proof (induction w rule: settle.induct)
  case (1 w)
  from "1.prems" obtain d t rest where ts: "timers w = (d, t) # rest"
    by (cases "timers w") auto
  let ?v = "w\<lparr>timers := rest, clock := max (clock w) d\<rparr>"
  have step: "tick w = Some (fire t ?v)" using ts by (simp add: tick_def)
  show ?case
  proof (cases "(d, t) = (due, CloseModal k)")
    case True
    then have "(clock ?v + 300, RemoveNode (captured w k)) \<in> set (timers (fire t ?v))"
      by (auto simp: closeModal_fields set_insert_timer)
    then have "captured w k \<notin> set (body (settle (fire t ?v)))"
      by (rule settle_removes)
    then show ?thesis by (simp add: settle_unfold_Some [OF step])
  next
    case False
    with "1.prems" ts have "(due, CloseModal k) \<in> set (timers ?v)" by auto
    then have "(due, CloseModal k) \<in> set (timers (fire t ?v))"
      using fire_keeps_timers by blast
    then have "captured (fire t ?v) k \<notin> set (body (settle (fire t ?v)))"
      by (rule "1.IH" [OF step])
    then show ?thesis by (simp add: settle_unfold_Some [OF step] fire_captured)
  qed
qed

text \<open>
  C10. A second \<open>closeModal\<close> of the same instance has the effect of one. Right
  after it, at once or at any later time of the clock, the body, the \<open>keydown\<close>
  listeners and every node are as the first call left them (the listener of the
  instance gone, the visibility class off); the only difference of a second call made
  at once is a second pending removal of the same node, next to the first. Once
  all timers have run the two worlds are the same world: the node is out of the body,
  the listener is still gone, and nothing is pending. No call can fail: each is a total
  function of the state.
\<close>

theorem closeModal_idempotent:
  "dom_state (closeModal k (closeModal k w)) = dom_state (closeModal k w) \<and>
   (\<forall>t. dom_state (closeModal k ((closeModal k w)\<lparr>clock := t\<rparr>)) =
        dom_state (closeModal k w)) \<and>
   k \<notin> set (keydown (closeModal k w)) \<and>
   \<not> visible_class (nodes (closeModal k w) (captured w k)) \<and>
   timers (closeModal k (closeModal k w)) =
     insert_timer (clock w + 300, RemoveNode (captured w k)) (timers (closeModal k w)) \<and>
   settle (closeModal k (closeModal k w)) = settle (closeModal k w) \<and>
   captured w k \<notin> set (body (settle (closeModal k w))) \<and>
   k \<notin> set (keydown (settle (closeModal k w))) \<and>
   timers (settle (closeModal k w)) = []"
proof -
  have a: "dom_state (closeModal k (closeModal k w)) = dom_state (closeModal k w)"
    by (simp add: dom_state_def closeModal_fields)
  have a': "dom_state (closeModal k ((closeModal k w)\<lparr>clock := t\<rparr>)) =
      dom_state (closeModal k w)" for t
    by (simp add: dom_state_def closeModal_fields)
  have b: "k \<notin> set (keydown (closeModal k w))"
    by (simp add: closeModal_fields)
  have c: "\<not> visible_class (nodes (closeModal k w) (captured w k))"
    by (simp add: closeModal_fields)
  have d: "timers (closeModal k (closeModal k w)) =
     insert_timer (clock w + 300, RemoveNode (captured w k)) (timers (closeModal k w))"
    by (simp add: closeModal_fields)
  have e: "settle (closeModal k (closeModal k w)) = settle (closeModal k w)"
    using closeModal_twice_twin by (rule settle_twin_removal)
  have "(clock w + 300, RemoveNode (captured w k)) \<in> set (timers (closeModal k w))"
    by (simp add: closeModal_fields set_insert_timer)
  then have f: "captured w k \<notin> set (body (settle (closeModal k w)))"
    by (rule settle_removes)
  have g: "k \<notin> set (keydown (settle (closeModal k w)))"
    using b settle_shrinks by blast
  have h: "timers (settle (closeModal k w)) = []"
    by (rule settle_no_timers)
  from a a' b c d e f g h show ?thesis by simp
qed


section \<open>The submit handler\<close>

lemma str_includes_single: "str_includes s [c] \<longleftrightarrow> c \<in> set s"
  by (induction s) auto

lemma set_trim_subset: "set (trim s) \<subseteq> set s"
  unfolding trim_def
  by (metis set_dropWhileD set_rev subsetI)

lemma at_not_space: "\<not> is_js_space CHR ''@''"
  by (simp add: is_js_space_def)

lemma dropWhile_keeps: "c \<in> set s \<Longrightarrow> \<not> P c \<Longrightarrow> c \<in> set (dropWhile P s)"
  by (induction s) auto

lemma at_in_trim: "CHR ''@'' \<in> set (trim s) \<longleftrightarrow> CHR ''@'' \<in> set s"
proof
  assume "CHR ''@'' \<in> set (trim s)"
  then show "CHR ''@'' \<in> set s" using set_trim_subset by blast
next
  assume a: "CHR ''@'' \<in> set s"
  then have "CHR ''@'' \<in> set (dropWhile is_js_space s)"
    by (rule dropWhile_keeps) (rule at_not_space)
  then have "CHR ''@'' \<in> set (rev (dropWhile is_js_space s))" by simp
  then have "CHR ''@'' \<in> set (dropWhile is_js_space (rev (dropWhile is_js_space s)))"
    by (rule dropWhile_keeps) (rule at_not_space)
  then show "CHR ''@'' \<in> set (trim s)" by (simp add: trim_def)
qed

lemma valid_email_trim: "valid_email (trim s) \<longleftrightarrow> CHR ''@'' \<in> set s"
proof -
  have "valid_email (trim s) \<longleftrightarrow> CHR ''@'' \<in> set (trim s)"
    by (auto simp: valid_email_def)
  then show ?thesis by (simp add: at_in_trim)
qed

lemma validation_test:
  "(trim s = [] \<or> \<not> str_includes (trim s) ''@'') \<longleftrightarrow> \<not> valid_email (trim s)"
  by (auto simp: valid_email_def str_includes_single)

lemma showMessage_fields:
  "nodes (showMessage m msg ty w) =
     (nodes w)(m := (nodes w m)\<lparr>message_text := msg,
        message_class := ''notify-me-form__message notify-me-form__message--'' @ ty,
        message_display := ''block''\<rparr>)"
  "body (showMessage m msg ty w) = body w"
  "keydown (showMessage m msg ty w) = keydown w"
  "timers (showMessage m msg ty w) = timers w"
  "requests (showMessage m msg ty w) = requests w"
  "clock (showMessage m msg ty w) = clock w"
  by (simp_all add: showMessage_def update_node_def)

lemma submit_begin_invalid:
  assumes "\<not> valid_email (trim (email_value (nodes w (captured w k))))"
  shows "submit_begin pg k w = Finished (showMessage (captured w k) invalid_email_message ''error'' w)"
  using assms validation_test [of "email_value (nodes w (captured w k))"]
  by (simp add: submit_begin_def Let_def)

lemma messages_distinct:
  "invalid_email_message \<noteq> no_variant_message"
  "network_error_message \<noteq> fallback_error_message"
  by (simp_all add: invalid_email_message_def no_variant_message_def network_error_message_def fallback_error_message_def)

lemma submit_begin_valid:
  assumes "valid_email (trim (email_value (nodes w (captured w k))))"
  shows "submit_begin pg k w =
     (case getVariantId pg of
        None \<Rightarrow> Finished (showMessage (captured w k) no_variant_message ''error'' w)
      | Some v \<Rightarrow>
          Awaiting
            ((update_node (captured w k)
                (\<lambda>n. n\<lparr>submit_disabled := True, submit_label := ''Submitting...''\<rparr>) w)
             \<lparr>requests := requests w @ [(v, trim (email_value (nodes w (captured w k))))]\<rparr>)
            \<lparr>p_instance = k, p_modal = captured w k,
             p_originalText = submit_label (nodes w (captured w k)),
             p_variantId = v, p_email = trim (email_value (nodes w (captured w k)))\<rparr>)"
proof -
  have ne: "getVariantId pg \<noteq> Some []"
    using getVariantId_refines find_nonempty by (simp add: resolve_variant_def)
  show ?thesis
    using assms validation_test [of "email_value (nodes w (captured w k))"] ne
    by (auto simp: submit_begin_def Let_def update_node_def split: option.splits)
qed

lemma submit_resume_button:
  "submit_disabled (nodes (submit_resume p outcome w) (p_modal p)) = False"
  "submit_label (nodes (submit_resume p outcome w) (p_modal p)) = p_originalText p"
  by (simp_all add: submit_resume_def Let_def update_node_def)


lemma open_modal_with_facts:
  "captured (open_modal_with s) 0 = 0"
  "email_value (nodes (open_modal_with s) 0) = s"
  "submit_label (nodes (open_modal_with s) 0) = ''Notify Me''"
  "requests (open_modal_with s) = []"
  "timers (open_modal_with s) = [(100, FocusEmail 0)]"
  "clock (open_modal_with s) = 0"
  by (simp_all add: open_modal_with_def type_email_def update_node_def showEmailModal_def
        initial_world_def setTimeout_def Let_def modalHTML_def)

lemma showMessage_text:
  "message_text (nodes (showMessage m msg ty w) m) = msg"
  "message_class (nodes (showMessage m msg ty w) m) =
     ''notify-me-form__message notify-me-form__message--'' @ ty"
  "message_display (nodes (showMessage m msg ty w) m) = ''block''"
  by (simp_all add: showMessage_fields)


text \<open>
  C4. When the trimmed email is empty or holds no \<open>@\<close>, the handler ends with the
  validation message shown in the message area and sends no request, whatever the
  network would have answered; when the trimmed email is not empty and holds an
  \<open>@\<close>, the handler does not end that way. The emails accepted are exactly those
  that hold an \<open>@\<close>.
\<close>

theorem submit_validates_email:
  "(\<not> valid_email (trim (email_value (nodes w (captured w k)))) \<longrightarrow>
      submit_handler pg k outcome w =
        showMessage (captured w k) invalid_email_message ''error'' w \<and>
      message_text (nodes (submit_handler pg k outcome w) (captured w k)) =
        invalid_email_message \<and>
      message_display (nodes (submit_handler pg k outcome w) (captured w k)) = ''block'' \<and>
      requests (submit_handler pg k outcome w) = requests w) \<and>
   (valid_email (trim (email_value (nodes w (captured w k)))) \<longrightarrow>
      submit_begin pg k w \<noteq>
        Finished (showMessage (captured w k) invalid_email_message ''error'' w)) \<and>
   (valid_email (trim (email_value (nodes w (captured w k)))) \<longleftrightarrow>
      CHR ''@'' \<in> set (email_value (nodes w (captured w k))))"
proof (intro conjI impI)
  assume inv: "\<not> valid_email (trim (email_value (nodes w (captured w k))))"
  then show h: "submit_handler pg k outcome w =
      showMessage (captured w k) invalid_email_message ''error'' w"
    by (simp add: submit_handler_def submit_begin_invalid)
  show "message_text (nodes (submit_handler pg k outcome w) (captured w k)) =
      invalid_email_message"
    unfolding h by (rule showMessage_text)
  show "message_display (nodes (submit_handler pg k outcome w) (captured w k)) = ''block''"
    unfolding h by (rule showMessage_text)
  show "requests (submit_handler pg k outcome w) = requests w"
    unfolding h by (rule showMessage_fields)
next
  assume v: "valid_email (trim (email_value (nodes w (captured w k))))"
  show "submit_begin pg k w \<noteq>
      Finished (showMessage (captured w k) invalid_email_message ''error'' w)"
  proof (cases "getVariantId pg")
    case None
    have "message_text (nodes (showMessage (captured w k) no_variant_message ''error'' w)
            (captured w k)) \<noteq>
          message_text (nodes (showMessage (captured w k) invalid_email_message ''error'' w)
            (captured w k))"
      unfolding showMessage_text using messages_distinct(1) by simp
    then have "showMessage (captured w k) no_variant_message ''error'' w \<noteq>
               showMessage (captured w k) invalid_email_message ''error'' w"
      by metis
    with None v show ?thesis by (simp add: submit_begin_valid)
  next
    case (Some a)
    with v show ?thesis by (simp add: submit_begin_valid)
  qed
next
  show "valid_email (trim (email_value (nodes w (captured w k)))) \<longleftrightarrow>
      CHR ''@'' \<in> set (email_value (nodes w (captured w k)))"
    by (rule valid_email_trim)
qed

theorem submit_validates_email_witness:
  "message_text
     (nodes (submit_handler url_only_page 0 (Rejected (mk_error ''TypeError'' ''Failed to fetch''))
               (open_modal_with ''not-an-email'')) 0)
     = ''Please enter a valid email address.'' \<and>
   requests (submit_handler url_only_page 0 (Rejected (mk_error ''TypeError'' ''Failed to fetch''))
               (open_modal_with ''not-an-email'')) = [] \<and>
   submit_begin url_only_page 0 (open_modal_with ''a@b.c'') \<noteq>
     Finished (showMessage 0 invalid_email_message ''error'' (open_modal_with ''a@b.c''))"
proof -
  note c = open_modal_with_facts(1) and e = open_modal_with_facts(2)
    and r = open_modal_with_facts(4)
  have bad: "\<not> valid_email (trim ''not-an-email'')"
    by (simp add: valid_email_trim)
  have good: "valid_email (trim ''a@b.c'')"
    by (simp add: valid_email_trim)
  from submit_validates_email [of "open_modal_with ''not-an-email''" 0 url_only_page
        "Rejected (mk_error ''TypeError'' ''Failed to fetch'')"]
       submit_validates_email [of "open_modal_with ''a@b.c''" 0 url_only_page
        "Rejected (mk_error ''TypeError'' ''Failed to fetch'')"]
       bad good
  show ?thesis
    by (simp add: c e r invalid_email_message_def showMessage_text showMessage_fields)
qed



text \<open>
  C5. With an accepted email and no variant found by \<open>getVariantId\<close>, the handler
  ends with the unresolved-variant message shown in the message area and sends no
  request.
\<close>

theorem submit_unresolved_variant:
  assumes "valid_email (trim (email_value (nodes w (captured w k))))"
      and "getVariantId pg = None"
  shows "submit_handler pg k outcome w =
           showMessage (captured w k) no_variant_message ''error'' w \<and>
         message_text (nodes (submit_handler pg k outcome w) (captured w k)) =
           no_variant_message \<and>
         message_display (nodes (submit_handler pg k outcome w) (captured w k)) = ''block'' \<and>
         requests (submit_handler pg k outcome w) = requests w"
proof -
  have h: "submit_handler pg k outcome w =
      showMessage (captured w k) no_variant_message ''error'' w"
    using assms by (simp add: submit_handler_def submit_begin_valid)
  show ?thesis
    unfolding h by (simp add: showMessage_text showMessage_fields)
qed

theorem submit_unresolved_variant_witness:
  "message_text
     (nodes (submit_handler no_variant_page 0 (Responded \<lparr>status = 200, json_body = Inr JNull\<rparr>)
               (open_modal_with ''a@b.c'')) 0)
     = ''Error: Could not determine product variant.'' \<and>
   requests (submit_handler no_variant_page 0 (Responded \<lparr>status = 200, json_body = Inr JNull\<rparr>)
               (open_modal_with ''a@b.c'')) = []"
proof -
  have v: "valid_email (trim (email_value (nodes (open_modal_with ''a@b.c'')
             (captured (open_modal_with ''a@b.c'') 0))))"
    by (simp add: open_modal_with_facts valid_email_trim)
  have n: "getVariantId no_variant_page = None"
    by code_simp
  from submit_unresolved_variant [OF v n, of "Responded \<lparr>status = 200, json_body = Inr JNull\<rparr>"]
  show ?thesis
    by (simp add: open_modal_with_facts no_variant_message_def showMessage_text
          showMessage_fields)
qed


text \<open>
  C6. With an accepted email and a variant, the handler sends one request and waits with
  the submit button disabled and labelled \<open>Submitting...\<close>; however the request
  settles (a response that is ok, a response that is not, a rejection) and whatever
  happened to the document meanwhile, the handler ends with the button enabled and its
  label the one it had when the handler started.
\<close>

theorem submit_button_restored:
  assumes "valid_email (trim (email_value (nodes w (captured w k))))"
      and "getVariantId pg = Some v"
  shows "\<exists>w1 p.
           submit_begin pg k w = Awaiting w1 p \<and>
           submit_disabled (nodes w1 (captured w k)) \<and>
           submit_label (nodes w1 (captured w k)) = ''Submitting...'' \<and>
           requests w1 = requests w @ [(v, trim (email_value (nodes w (captured w k))))] \<and>
           (\<forall>outcome w'.
              \<not> submit_disabled (nodes (submit_resume p outcome w') (captured w k)) \<and>
              submit_label (nodes (submit_resume p outcome w') (captured w k)) =
                submit_label (nodes w (captured w k)))"
  using assms
  by (simp add: submit_begin_valid update_node_def submit_resume_button
        submit_resume_def Let_def)

theorem submit_button_restored_witness:
  "\<exists>w1 p.
     submit_begin url_only_page 0 (open_modal_with ''a@b.c'') = Awaiting w1 p \<and>
     submit_disabled (nodes w1 0) \<and>
     submit_label (nodes w1 0) = ''Submitting...'' \<and>
     requests w1 = [(''222'', ''a@b.c'')] \<and>
     (\<forall>outcome w'.
        \<not> submit_disabled (nodes (submit_resume p outcome w') 0) \<and>
        submit_label (nodes (submit_resume p outcome w') 0) = ''Notify Me'')"
proof -
  have v: "valid_email (trim (email_value (nodes (open_modal_with ''a@b.c'')
             (captured (open_modal_with ''a@b.c'') 0))))"
    by (simp add: open_modal_with_facts valid_email_trim)
  have t: "trim ''a@b.c'' = ''a@b.c''"
    by (simp add: trim_def is_js_space_def)
  have n: "getVariantId url_only_page = Some ''222''"
    by code_simp
  from submit_button_restored [OF v n]
  show ?thesis
    by (simp add: open_modal_with_facts t)
qed

text \<open>
  An accepted email, a variant, and a response that is ok and whose body parses: the
  handler shows the success message, empties the email field and sets the close of the
  modal 2500 ms ahead; once the timers have run the modal is out of the body.
\<close>

theorem submit_success_outcome:
  assumes "valid_email (trim (email_value (nodes w (captured w k))))"
      and "getVariantId pg = Some v"
      and "ok r" and "json_body r = Inr j"
  shows "message_text (nodes (submit_handler pg k (Responded r) w) (captured w k)) =
           success_message \<and>
         message_class (nodes (submit_handler pg k (Responded r) w) (captured w k)) =
           ''notify-me-form__message notify-me-form__message--success'' \<and>
         message_display (nodes (submit_handler pg k (Responded r) w) (captured w k)) = ''block'' \<and>
         email_value (nodes (submit_handler pg k (Responded r) w) (captured w k)) = [] \<and>
         timers (submit_handler pg k (Responded r) w) =
           insert_timer (clock w + 2500, CloseModal k) (timers w) \<and>
         captured w k \<notin> set (body (settle (submit_handler pg k (Responded r) w)))"
proof -
  let ?w' = "submit_handler pg k (Responded r) w"
  have a: "message_text (nodes ?w' (captured w k)) = success_message"
    and b: "message_class (nodes ?w' (captured w k)) =
           ''notify-me-form__message notify-me-form__message--success''"
    and c: "message_display (nodes ?w' (captured w k)) = ''block''"
    and d: "email_value (nodes ?w' (captured w k)) = []"
    and e: "timers ?w' = insert_timer (clock w + 2500, CloseModal k) (timers w)"
    and f: "captured ?w' = captured w"
    using assms
    by (simp_all add: submit_handler_def submit_begin_valid submit_resume_def Let_def
        submitNotification_def update_node_def showMessage_def setTimeout_def)
  have "(clock w + 2500, CloseModal k) \<in> set (timers ?w')"
    by (simp add: e set_insert_timer)
  then have "captured ?w' k \<notin> set (body (settle ?w'))"
    by (rule settle_closes)
  with a b c d e f show ?thesis by simp
qed

theorem submit_success_outcome_witness:
  "message_text
     (nodes (submit_handler url_only_page 0
               (Responded \<lparr>status = 200, json_body = Inr (JObj [])\<rparr>)
               (open_modal_with ''a@b.c'')) 0) = success_message \<and>
   email_value
     (nodes (submit_handler url_only_page 0
               (Responded \<lparr>status = 200, json_body = Inr (JObj [])\<rparr>)
               (open_modal_with ''a@b.c'')) 0) = [] \<and>
   timers (submit_handler url_only_page 0
               (Responded \<lparr>status = 200, json_body = Inr (JObj [])\<rparr>)
               (open_modal_with ''a@b.c'')) = [(100, FocusEmail 0), (2500, CloseModal 0)] \<and>
   0 \<notin> set (body (settle (submit_handler url_only_page 0
               (Responded \<lparr>status = 200, json_body = Inr (JObj [])\<rparr>)
               (open_modal_with ''a@b.c''))))"
proof -
  have v: "valid_email (trim (email_value (nodes (open_modal_with ''a@b.c'')
             (captured (open_modal_with ''a@b.c'') 0))))"
    by (simp add: open_modal_with_facts valid_email_trim)
  have n: "getVariantId url_only_page = Some ''222''"
    by code_simp
  have o: "ok \<lparr>status = 200, json_body = Inr (JObj [])\<rparr>"
    by (simp add: ok_def)
  from submit_success_outcome [OF v n o, of "JObj []"]
  show ?thesis
    by (simp add: open_modal_with_facts)
qed

text \<open>
  C3. A response with status 200 whose body does not parse as JSON (an empty body):
  \<open>response.json()\<close> rejects, the handler's \<open>catch\<close> block runs, and the user sees
  the parser's message as an error; the email field keeps its text and no close is
  scheduled, although the request was sent and answered with success.
\<close>

theorem submit_success_unparsable_body:
  "ok \<lparr>status = 200, json_body = Inl (mk_error ''SyntaxError'' ''Unexpected end of JSON input'')\<rparr> \<and>
   (let w = submit_handler url_only_page 0
              (Responded \<lparr>status = 200,
                 json_body = Inl (mk_error ''SyntaxError'' ''Unexpected end of JSON input'')\<rparr>)
              (open_modal_with ''a@b.c'')
    in message_text (nodes w 0) = ''Unexpected end of JSON input'' \<and>
       message_class (nodes w 0) = ''notify-me-form__message notify-me-form__message--error'' \<and>
       email_value (nodes w 0) = ''a@b.c'' \<and>
       timers w = [(100, FocusEmail 0)] \<and>
       requests w = [(''222'', ''a@b.c'')])"
proof -
  have v: "valid_email (trim (email_value (nodes (open_modal_with ''a@b.c'')
             (captured (open_modal_with ''a@b.c'') 0))))"
    by (simp add: open_modal_with_facts valid_email_trim)
  have t: "trim ''a@b.c'' = ''a@b.c''"
    by (simp add: trim_def is_js_space_def)
  have n: "getVariantId url_only_page = Some ''222''"
    by code_simp
  show ?thesis
    using v n
    by (simp add: submit_handler_def submit_begin_valid submit_resume_def Let_def
        submitNotification_def update_node_def showMessage_def setTimeout_def ok_def
        mk_error_def open_modal_with_facts t)
qed


text \<open>
  A rejection of \<open>fetch\<close> named TypeError whose message holds \<open>fetch\<close> is shown
  as the fixed connectivity message.
\<close>

theorem fetch_typeerror_generic_message:
  assumes "valid_email (trim (email_value (nodes w (captured w k))))"
      and "getVariantId pg = Some v"
      and "err_name e = ''TypeError''" and "str_includes (err_message e) ''fetch''"
  shows "message_text (nodes (submit_handler pg k (Rejected e) w) (captured w k)) =
           network_error_message \<and>
         message_class (nodes (submit_handler pg k (Rejected e) w) (captured w k)) =
           ''notify-me-form__message notify-me-form__message--error''"
  using assms
  by (simp add: submit_handler_def submit_begin_valid submit_resume_def Let_def
        submitNotification_def update_node_def showMessage_def rethrow_def mk_error_def
        network_error_message_def)

theorem fetch_typeerror_generic_message_witness:
  "message_text
     (nodes (submit_handler url_only_page 0 (Rejected (mk_error ''TypeError'' ''Failed to fetch''))
               (open_modal_with ''a@b.c'')) 0)
   = ''Network error. Please check your connection and try again.''"
proof -
  have v: "valid_email (trim (email_value (nodes (open_modal_with ''a@b.c'')
             (captured (open_modal_with ''a@b.c'') 0))))"
    by (simp add: open_modal_with_facts valid_email_trim)
  have n: "getVariantId url_only_page = Some ''222''"
    by code_simp
  have f: "str_includes (err_message (mk_error ''TypeError'' ''Failed to fetch'')) ''fetch''"
    unfolding mk_error_def by code_simp
  have t: "err_name (mk_error ''TypeError'' ''Failed to fetch'') = ''TypeError''"
    by (simp add: mk_error_def)
  from fetch_typeerror_generic_message [OF v n t f]
  show ?thesis
    by (simp add: open_modal_with_facts network_error_message_def)
qed

text \<open>
  C7. A rejection of \<open>fetch\<close> named TypeError whose message is \<open>Load failed\<close>
  (it does not hold \<open>fetch\<close>): the \<open>catch\<close> block of \<open>submitNotification\<close>
  throws it on unchanged, and the user sees that text, not the connectivity message.
\<close>

theorem rejected_load_failed_shows_raw_text:
  "message_text
     (nodes (submit_handler url_only_page 0 (Rejected (mk_error ''TypeError'' ''Load failed''))
               (open_modal_with ''a@b.c'')) 0)
   = ''Load failed'' \<and>
   ''Load failed'' \<noteq> network_error_message"
proof -
  have v: "valid_email (trim (email_value (nodes (open_modal_with ''a@b.c'')
             (captured (open_modal_with ''a@b.c'') 0))))"
    by (simp add: open_modal_with_facts valid_email_trim)
  have n: "getVariantId url_only_page = Some ''222''"
    by code_simp
  have f: "\<not> str_includes ''Load failed'' ''fetch''"
    by code_simp
  show ?thesis
    using v n f
    by (simp add: submit_handler_def submit_begin_valid submit_resume_def Let_def
        submitNotification_def update_node_def showMessage_def rethrow_def
        mk_error_def open_modal_with_facts network_error_message_def)
qed

text \<open>
  A response that is not ok: the user sees the message thrown for it (the fallback text
  should that message be empty). The message is the body's \<open>message\<close> when that is
  a string that is not empty, else its \<open>error\<close> when that is one, and the status
  text when the body does not parse or has neither.
\<close>

theorem server_error_message:
  assumes "valid_email (trim (email_value (nodes w (captured w k))))"
      and "getVariantId pg = Some v"
      and "\<not> ok r"
  shows "message_text (nodes (submit_handler pg k (Responded r) w) (captured w k)) =
           (if http_error_message r = [] then fallback_error_message
            else http_error_message r) \<and>
         (\<forall>e. json_body r = Inl e \<longrightarrow> http_error_message r = ''HTTP '' @ show_nat (status r)) \<and>
         (\<forall>ps s. json_body r = Inr (JObj ps) \<and> map_of ps ''message'' = Some (JStr s) \<and> s \<noteq> []
            \<longrightarrow> http_error_message r = s) \<and>
         (\<forall>ps s. json_body r = Inr (JObj ps) \<and> map_of ps ''message'' = None \<and>
                 map_of ps ''error'' = Some (JStr s) \<and> s \<noteq> []
            \<longrightarrow> http_error_message r = s) \<and>
         (\<forall>ps. json_body r = Inr (JObj ps) \<and> map_of ps ''message'' = None \<and>
                 map_of ps ''error'' = None
            \<longrightarrow> http_error_message r = ''HTTP '' @ show_nat (status r))"
proof -
  have "message_text (nodes (submit_handler pg k (Responded r) w) (captured w k)) =
           (if http_error_message r = [] then fallback_error_message
            else http_error_message r)"
    using assms
    by (simp add: submit_handler_def submit_begin_valid submit_resume_def Let_def
        submitNotification_def update_node_def showMessage_def rethrow_def mk_error_def)
  moreover have "json_body r = Inl e \<Longrightarrow> http_error_message r = ''HTTP '' @ show_nat (status r)" for e
    by (simp add: http_error_message_def)
  moreover have "json_body r = Inr (JObj ps) \<and> map_of ps ''message'' = Some (JStr s) \<and> s \<noteq> []
            \<Longrightarrow> http_error_message r = s" for ps s
    by (simp add: http_error_message_def)
  moreover have "json_body r = Inr (JObj ps) \<and> map_of ps ''message'' = None \<and>
                 map_of ps ''error'' = Some (JStr s) \<and> s \<noteq> []
            \<Longrightarrow> http_error_message r = s" for ps s
    by (simp add: http_error_message_def)
  moreover have "json_body r = Inr (JObj ps) \<and> map_of ps ''message'' = None \<and>
                 map_of ps ''error'' = None
            \<Longrightarrow> http_error_message r = ''HTTP '' @ show_nat (status r)" for ps
    by (simp add: http_error_message_def)
  ultimately show ?thesis by blast
qed

theorem server_error_message_witness:
  "message_text
     (nodes (submit_handler url_only_page 0
               (Responded \<lparr>status = 500, json_body = Inr (JObj [(''error'', JStr ''boom'')])\<rparr>)
               (open_modal_with ''a@b.c'')) 0) = ''boom'' \<and>
   message_text
     (nodes (submit_handler url_only_page 0
               (Responded \<lparr>status = 503,
                  json_body = Inl (mk_error ''SyntaxError'' ''Unexpected token'')\<rparr>)
               (open_modal_with ''a@b.c'')) 0) = ''HTTP 503''"
proof -
  have v: "valid_email (trim (email_value (nodes (open_modal_with ''a@b.c'')
             (captured (open_modal_with ''a@b.c'') 0))))"
    by (simp add: open_modal_with_facts valid_email_trim)
  have n: "getVariantId url_only_page = Some ''222''"
    by code_simp
  let ?r1 = "\<lparr>status = 500, json_body = Inr (JObj [(''error'', JStr ''boom'')])\<rparr>"
  let ?r2 = "\<lparr>status = 503, json_body = Inl (mk_error ''SyntaxError'' ''Unexpected token'')\<rparr>"
  have o1: "\<not> ok ?r1" and o2: "\<not> ok ?r2" by (simp_all add: ok_def)
  have s: "show_nat 503 = ''503''" by code_simp
  from server_error_message [OF v n o1] server_error_message [OF v n o2] s
  show ?thesis
    by (simp add: open_modal_with_facts)
qed


text \<open>
  One submission sends one request when the email is accepted and a variant is found,
  and none otherwise, however the request settles.
\<close>

theorem one_request_per_submission:
  "requests (submit_handler pg k outcome w) =
     requests w @
       (if valid_email (trim (email_value (nodes w (captured w k))))
        then (case getVariantId pg of
                None \<Rightarrow> []
              | Some v \<Rightarrow> [(v, trim (email_value (nodes w (captured w k))))])
        else [])"
proof (cases "valid_email (trim (email_value (nodes w (captured w k))))")
  case True
  then show ?thesis
    by (cases "submitNotification outcome")
       (simp_all add: submit_handler_def submit_begin_valid submit_resume_def Let_def
          update_node_def showMessage_def setTimeout_def split: option.splits)
next
  case False
  then show ?thesis
    by (simp add: submit_handler_def submit_begin_invalid showMessage_fields)
qed

end
